theory Spec2Isabelle
  imports Main "HOL-Library.Char_ord" "HOL-Library.List_Lexorder"
begin

section \<open>Strings as the source uses them\<close>

text \<open>
  The source is TypeScript.  Its strings are modelled as \<^typ>\<open>string\<close>, lists of
  characters with the codes 0 to 255, read as the code points U+0000 to U+00FF; what is
  proved below is proved for the strings over these characters.  On them:
  \<open>String.prototype.trim\<close> and the class \<open>\s\<close> of regular expressions take as white
  space TAB, LF, VT, FF, CR, the space and the no-break space U+00A0;
  \<open>String.prototype.toLowerCase\<close> maps \<open>A..Z\<close> to \<open>a..z\<close> and the capital letters
  U+00C0 to U+00DE (without the multiplication sign U+00D7) to the letters 32 places
  further on, and leaves every other character alone.
\<close>

definition isSpace :: "char \<Rightarrow> bool" where
  "isSpace c =
     (c \<in> set [CHR '' '', CHR 0x09, CHR 0x0A, CHR 0x0B, CHR 0x0C, CHR 0x0D, CHR 0xA0])"

definition upperChars :: string where
  "upperChars =
     ''ABCDEFGHIJKLMNOPQRSTUVWXYZ'' @
     [CHR 0xC0, CHR 0xC1, CHR 0xC2, CHR 0xC3, CHR 0xC4, CHR 0xC5, CHR 0xC6, CHR 0xC7, CHR 0xC8,
      CHR 0xC9, CHR 0xCA, CHR 0xCB, CHR 0xCC, CHR 0xCD, CHR 0xCE, CHR 0xCF, CHR 0xD0, CHR 0xD1,
      CHR 0xD2, CHR 0xD3, CHR 0xD4, CHR 0xD5, CHR 0xD6, CHR 0xD8, CHR 0xD9, CHR 0xDA, CHR 0xDB,
      CHR 0xDC, CHR 0xDD, CHR 0xDE]"

definition lowerChars :: string where
  "lowerChars =
     ''abcdefghijklmnopqrstuvwxyz'' @
     [CHR 0xE0, CHR 0xE1, CHR 0xE2, CHR 0xE3, CHR 0xE4, CHR 0xE5, CHR 0xE6, CHR 0xE7, CHR 0xE8,
      CHR 0xE9, CHR 0xEA, CHR 0xEB, CHR 0xEC, CHR 0xED, CHR 0xEE, CHR 0xEF, CHR 0xF0, CHR 0xF1,
      CHR 0xF2, CHR 0xF3, CHR 0xF4, CHR 0xF5, CHR 0xF6, CHR 0xF8, CHR 0xF9, CHR 0xFA, CHR 0xFB,
      CHR 0xFC, CHR 0xFD, CHR 0xFE]"

definition toLowerChar :: "char \<Rightarrow> char" where
  "toLowerChar c = (case map_of (zip upperChars lowerChars) c of Some d \<Rightarrow> d | None \<Rightarrow> c)"

definition toLowerCase :: "string \<Rightarrow> string" where
  "toLowerCase s = map toLowerChar s"

definition trimStart :: "string \<Rightarrow> string" where
  "trimStart s = dropWhile isSpace s"

definition trimEnd :: "string \<Rightarrow> string" where
  "trimEnd s = rev (dropWhile isSpace (rev s))"

definition trim :: "string \<Rightarrow> string" where
  "trim s = trimEnd (trimStart s)"

text \<open>\<open>s.startsWith(p)\<close>.\<close>

definition startsWith :: "string \<Rightarrow> string \<Rightarrow> bool" where
  "startsWith s p = (take (length p) s = p)"

text \<open>\<open>s.replace(/^\./, "")\<close>: at most one leading dot is removed.\<close>

fun stripLeadingDot :: "string \<Rightarrow> string" where
  "stripLeadingDot [] = []"
| "stripLeadingDot (c # cs) = (if c = CHR ''.'' then cs else c # cs)"

text \<open>
  \<^verbatim>\<open>export const normalizeExt = (value: string) =>
      value.trim().replace(/^\./, "").toLowerCase();\<close>
\<close>

definition normalizeExt :: "string \<Rightarrow> string" where
  "normalizeExt v = toLowerCase (stripLeadingDot (trim v))"

text \<open>
  A trimmed string on which a second normalisation still finds work to do: it starts with
  a dot that is followed by another dot or by white space.
\<close>

fun dotThenDotOrSpace :: "string \<Rightarrow> bool" where
  "dotThenDotOrSpace (c # d # cs) = (c = CHR ''.'' \<and> (d = CHR ''.'' \<or> isSpace d))"
| "dotThenDotOrSpace cs = False"

section \<open>Categories and the default output\<close>

datatype FileCategory = Image | Audio | Video | Doc | Unknown

text \<open>The table \<open>preferredByCategory\<close> inside \<open>pickDefaultOutput\<close>.\<close>

fun preferredByCategory :: "FileCategory \<Rightarrow> string list" where
  "preferredByCategory Image = [''png'', ''jpg'', ''jpeg'', ''webp'']"
| "preferredByCategory Audio = [''wav'', ''mp3'', ''aac'']"
| "preferredByCategory Video = [''mp4'', ''mov'', ''mkv'']"
| "preferredByCategory Doc = [''pdf'', ''docx'', ''txt'']"
| "preferredByCategory Unknown = [''png'', ''pdf'', ''mp4'']"

text \<open>
  The loop \<^verbatim>\<open>for (const candidate of preferred) if (outputs.includes(candidate)) return candidate;\<close>
  with \<open>None\<close> for falling out of the loop.
\<close>

fun firstIncluded :: "string list \<Rightarrow> string list \<Rightarrow> string option" where
  "firstIncluded [] outputs = None"
| "firstIncluded (candidate # rest) outputs =
     (if candidate \<in> set outputs then Some candidate else firstIncluded rest outputs)"

text \<open>
  After the loop: \<^verbatim>\<open>return outputs[0] ?? preferred[0] ?? "png";\<close>.  An index out of
  range is \<open>undefined\<close> in JavaScript, and \<open>??\<close> passes on exactly \<open>undefined\<close> and
  \<open>null\<close>, so an empty string at \<open>outputs[0]\<close> is returned as it is.
\<close>

definition pickDefaultOutput :: "FileCategory \<Rightarrow> string list \<Rightarrow> string" where
  "pickDefaultOutput category outputs =
     (let preferred = preferredByCategory category in
      case firstIncluded preferred outputs of
        Some candidate \<Rightarrow> candidate
      | None \<Rightarrow>
          (case outputs of
             out # _ \<Rightarrow> out
           | [] \<Rightarrow> (case preferred of p # _ \<Rightarrow> p | [] \<Rightarrow> ''png'')))"

section \<open>Splitting text\<close>

text \<open>\<open>s.split(sep)\<close> for a one-character separator: \<open>"a,,b"\<close> gives \<open>["a", "", "b"]\<close>.\<close>

fun splitChar :: "char \<Rightarrow> string \<Rightarrow> string list" where
  "splitChar sep [] = [[]]"
| "splitChar sep (c # cs) =
     (if c = sep then [] # splitChar sep cs
      else (case splitChar sep cs of w # ws \<Rightarrow> (c # w) # ws | [] \<Rightarrow> [[c]]))"

text \<open>
  \<open>s.split(/\r?\n/)\<close>: a line ends at LF, and a CR right before that LF belongs to the
  separator.
\<close>

fun splitLines :: "string \<Rightarrow> string list" where
  "splitLines [] = [[]]"
| "splitLines (c # cs) =
     (if c = CHR 0x0A then [] # splitLines cs
      else if c = CHR 0x0D \<and> cs \<noteq> [] \<and> hd cs = CHR 0x0A then [] # splitLines (tl cs)
      else (case splitLines cs of l # ls \<Rightarrow> (c # l) # ls | [] \<Rightarrow> [[c]]))"

text \<open>
  \<open>s.split(/\s+/)\<close>: every maximal run of white space is one separator, so white space
  at either end leaves an empty first or last piece.
\<close>

function splitWs :: "string \<Rightarrow> string list" where
  "splitWs [] = [[]]"
| "splitWs (c # cs) =
     (if isSpace c then [] # splitWs (dropWhile isSpace cs)
      else (case splitWs cs of w # ws \<Rightarrow> (c # w) # ws | [] \<Rightarrow> [[c]]))"
  by pat_completeness auto
termination
  by (relation "measure length") (auto simp: length_dropWhile_le less_Suc_eq_le)

text \<open>\<open>parts.join(sep)\<close>.\<close>

fun joinWith :: "string \<Rightarrow> string list \<Rightarrow> string" where
  "joinWith sep [] = []"
| "joinWith sep [x] = x"
| "joinWith sep (x # y # ys) = x @ sep @ joinWith sep (y # ys)"

section \<open>Tool descriptors and the process environment\<close>

datatype ConverterKind = Magick | Ffmpeg | Pandoc | Libreoffice

datatype OutputDestination = Clipboard | Save | Both

record ToolFormats =
  bin :: string
  input :: "string list"
  output' :: "string list"

record Preferences =
  magickPath :: "string option"
  ffmpegPath :: "string option"
  pandocPath :: "string option"
  libreofficePath :: "string option"

record ConverterDecision =
  kind :: ConverterKind
  tool :: ToolFormats
  category :: FileCategory
  defaultOutput :: string

text \<open>
  \<open>toolCache\<close>: a key that was never written is \<open>undefined\<close> (\<open>None\<close>); a written key
  holds \<open>null\<close> (\<open>Some None\<close>) or a descriptor.
\<close>

record toolCache =
  magick :: "ToolFormats option option"
  ffmpeg :: "ToolFormats option option"
  pandoc :: "ToolFormats option option"
  libreoffice :: "ToolFormats option option"

definition emptyCache :: toolCache where
  "emptyCache = \<lparr>magick = None, ffmpeg = None, pandoc = None, libreoffice = None\<rparr>"

text \<open>
  The promise of \<open>execFileAsync\<close> resolves with the process's standard output and
  standard error, or rejects with an error that carries a message and what was captured of
  the two streams (a missing stream is the empty string here: the code only ever tests them
  with \<open>filter(Boolean)\<close>).
\<close>

datatype exec_result = Resolved string string | Rejected string string string

text \<open>A thrown \<open>Error\<close> with its message.\<close>

datatype error = Error string

text \<open>
  What \<open>Clipboard.read()\<close> returns: \<open>text\<close> is always there, \<open>file\<close> may be missing.
  (The fields \<open>output\<close>, \<open>text\<close> and \<open>file\<close> of the source carry a prime here, since
  the plain words are keywords of Isabelle.)
\<close>

record ClipboardContent =
  text' :: string
  file' :: "string option"

text \<open>
  The functions of Node's \<open>path\<close> module that the source calls.  The module comes in two
  flavours, and \<open>import path from "node:path"\<close> is the one of the host's platform.
\<close>

record pathModule =
  join :: "string list \<Rightarrow> string"
  basename :: "string \<Rightarrow> string \<Rightarrow> string"
  extname :: "string \<Rightarrow> string"
  dirname :: "string \<Rightarrow> string"

text \<open>
  Everything the module reads from outside itself.  \<open>execFile\<close> answers a process
  invocation (the same invocation gets the same answer for as long as the host is this
  one), \<open>access\<close> says whether \<open>fs.access\<close> resolves, \<open>scanProgramFiles\<close> is
  the outcome of the directory walk in \<open>findMagickOnWindows\<close> (lines 145 to 166, which
  only read the Windows program directories), \<open>fileURLToPath\<close> is Node's function of that
  name, which throws on a \<open>file:\<close> URL it cannot turn into a path (\<open>Inl\<close>), and
  \<open>win32Path\<close> is the Windows flavour of the \<open>path\<close> module, which is library code
  that is not modelled here and is used on a Windows host only.
\<close>

record env =
  isWindows :: bool
  preferences :: Preferences
  execFile :: "string \<Rightarrow> string list \<Rightarrow> exec_result"
  access :: "string \<Rightarrow> bool"
  scanProgramFiles :: "string option"
  tmpdir :: string
  clipboardRead :: ClipboardContent
  fileURLToPath :: "string \<Rightarrow> error + string"
  win32Path :: pathModule

definition imagePreferredExts :: "string list" where
  "imagePreferredExts =
     [''png'', ''jpg'', ''jpeg'', ''gif'', ''webp'', ''bmp'', ''tif'', ''tiff'', ''heic'',
      ''heif'', ''avif'', ''svg'', ''ico'', ''psd'', ''tga'']"

definition audioExts :: "string list" where
  "audioExts =
     [''aac'', ''aiff'', ''alac'', ''flac'', ''m4a'', ''mp3'', ''ogg'', ''opus'', ''wav'', ''wma'']"

definition videoExts :: "string list" where
  "videoExts = [''avi'', ''mkv'', ''mov'', ''mp4'', ''m4v'', ''webm'', ''wmv'', ''flv'']"

definition libreOfficeInput :: "string list" where
  "libreOfficeInput =
     [''doc'', ''docx'', ''xls'', ''xlsx'', ''ppt'', ''pptx'', ''odt'', ''ods'', ''odp'', ''rtf'',
      ''txt'', ''csv'', ''html'', ''htm'']"

definition libreOfficeOutput :: "string list" where
  "libreOfficeOutput =
     [''pdf'', ''docx'', ''xlsx'', ''pptx'', ''odt'', ''ods'', ''odp'', ''rtf'', ''txt'', ''html'']"

text \<open>
  \<open>Array.from(new Set(values))\<close> keeps the first occurrence of every value, in the order
  of insertion.
\<close>

definition arrayFromSet :: "'a list \<Rightarrow> 'a list" where
  "arrayFromSet values = rev (remdups (rev values))"

text \<open>
  \<^verbatim>\<open>const uniqueSorted = (values: string[]) =>
      Array.from(new Set(values.filter(Boolean))).sort();\<close>
  \<open>filter(Boolean)\<close> drops the empty strings; \<open>sort()\<close> without a comparator orders
  strings by their code units, a prefix before its extensions.
\<close>

definition uniqueSorted :: "string list \<Rightarrow> string list" where
  "uniqueSorted values = sort (arrayFromSet (filter (\<lambda>v. v \<noteq> []) values))"

definition normalizePref :: "string option \<Rightarrow> string" where
  "normalizePref v = trim (case v of None \<Rightarrow> [] | Some s \<Rightarrow> s)"

definition canRun :: "env \<Rightarrow> string \<Rightarrow> string list \<Rightarrow> bool" where
  "canRun e cmd args = (case execFile e cmd args of Resolved _ _ \<Rightarrow> True | Rejected _ _ _ \<Rightarrow> False)"

definition resolvePreferred :: "env \<Rightarrow> string option \<Rightarrow> string list \<Rightarrow> string option" where
  "resolvePreferred e v probeArgs =
     (let preferred = normalizePref v in
      if preferred = [] then None
      else if canRun e preferred probeArgs then Some preferred else None)"

definition findBinary :: "env \<Rightarrow> string \<Rightarrow> string option" where
  "findBinary e cmd =
     (let locator = (if isWindows e then ''where'' else ''which'') in
      case execFile e locator [cmd] of
        Resolved out _ \<Rightarrow>
          (case find (\<lambda>line. length (trim line) > 0) (splitLines out) of
             Some first \<Rightarrow> if first \<noteq> [] then Some first else None
           | None \<Rightarrow> None)
      | Rejected _ _ _ \<Rightarrow> None)"

definition findMagickOnWindows :: "env \<Rightarrow> string option" where
  "findMagickOnWindows e = (if \<not> isWindows e then None else scanProgramFiles e)"

text \<open>
  The search for the first candidate that is found:
  \<^verbatim>\<open>for (const candidate of candidates) {
    const resolved = await findBinary(candidate);
    if (resolved) { bin = candidate; break; }
  }\<close>
\<close>

fun firstResolved :: "env \<Rightarrow> string list \<Rightarrow> string option" where
  "firstResolved e [] = None"
| "firstResolved e (candidate # rest) =
     (case findBinary e candidate of Some _ \<Rightarrow> Some candidate | None \<Rightarrow> firstResolved e rest)"

text \<open>\<open>!bin\<close> for a \<open>string | null\<close>: \<open>null\<close> and the empty string are falsy.\<close>

fun truthy :: "string option \<Rightarrow> bool" where
  "truthy None = False"
| "truthy (Some s) = (s \<noteq> [])"

section \<open>Format listings\<close>

text \<open>\<open>format.replace(/\*$/, "")\<close>: one trailing asterisk is removed.\<close>

definition stripTrailingStar :: "string \<Rightarrow> string" where
  "stripTrailingStar s = (if s \<noteq> [] \<and> last s = CHR ''*'' then butlast s else s)"

text \<open>
  \<^verbatim>\<open>trimmed.match(/^(\S+)\s+\S+\s+([r-][w-][+-])\s+/i)\<close>: a first word, white space, a
  second word, white space, a three-character mode (letters in either case) and white
  space after it.  The words and the runs of white space are maximal, since each is
  followed by a character of the other class.
\<close>

definition magickMatch :: "string \<Rightarrow> (string \<times> string) option" where
  "magickMatch s =
     (let format = takeWhile (\<lambda>c. \<not> isSpace c) s;
          r1 = dropWhile (\<lambda>c. \<not> isSpace c) s;
          r2 = dropWhile isSpace r1;
          r3 = dropWhile (\<lambda>c. \<not> isSpace c) r2;
          r4 = dropWhile isSpace r3;
          mode = take 3 r4;
          r5 = drop 3 r4
      in if format \<noteq> [] \<and> r1 \<noteq> [] \<and> r2 \<noteq> [] \<and> r3 \<noteq> [] \<and> length mode = 3
            \<and> mode ! 0 \<in> set ''rR-'' \<and> mode ! 1 \<in> set ''wW-'' \<and> mode ! 2 \<in> set ''+-''
            \<and> r5 \<noteq> [] \<and> isSpace (hd r5)
         then Some (format, mode) else None)"

text \<open>
  The body of the loop of \<open>loadMagickFormats\<close> up to the test
  \<^verbatim>\<open>if (!format || !mode) continue;\<close>: the format and the mode of a line, or \<open>None\<close> when
  the line is skipped.
\<close>

definition magickLineEntry :: "string \<Rightarrow> (string \<times> string) option" where
  "magickLineEntry line =
     (let trimmed = trim line in
      if trimmed = [] \<or> startsWith trimmed ''Format'' \<or> startsWith trimmed ''--'' then None
      else
        (let (format, mode) =
               (case magickMatch trimmed of
                  Some fm \<Rightarrow> fm
                | None \<Rightarrow>
                    (let parts = splitWs trimmed in
                     if length parts \<ge> 3 then (parts ! 0, parts ! 2) else ([], [])))
         in if format = [] \<or> mode = [] then None else Some (format, mode)))"

definition magickStep :: "string list \<times> string list \<Rightarrow> string \<Rightarrow> string list \<times> string list" where
  "magickStep acc line =
     (case magickLineEntry line of
        None \<Rightarrow> acc
      | Some (format, mode) \<Rightarrow>
          (let normalized = normalizeExt (stripTrailingStar format);
               modeLower = toLowerCase mode
           in (if CHR ''r'' \<in> set modeLower then fst acc @ [normalized] else fst acc,
               if CHR ''w'' \<in> set modeLower then snd acc @ [normalized] else snd acc)))"

definition loadMagickFormats :: "env \<Rightarrow> string \<Rightarrow> string list \<times> string list" where
  "loadMagickFormats e b =
     (case execFile e b [''-list'', ''format''] of
        Resolved out _ \<Rightarrow>
          (let acc = foldl magickStep ([], []) (splitLines out)
           in (uniqueSorted (fst acc), uniqueSorted (snd acc)))
      | Rejected _ _ _ \<Rightarrow> ([], []))"

text \<open>
  \<^verbatim>\<open>line.match(/^\s*([D.])([E.])\s+(\S+)/)\<close>: the two flag characters and the word after
  them.
\<close>

definition ffmpegMatch :: "string \<Rightarrow> (char \<times> char \<times> string) option" where
  "ffmpegMatch line =
     (case dropWhile isSpace line of
        d # m # rest \<Rightarrow>
          (let names = dropWhile isSpace rest in
           if (d = CHR ''D'' \<or> d = CHR ''.'') \<and> (m = CHR ''E'' \<or> m = CHR ''.'')
              \<and> rest \<noteq> [] \<and> isSpace (hd rest) \<and> names \<noteq> []
           then Some (d, m, takeWhile (\<lambda>c. \<not> isSpace c) names) else None)
      | _ \<Rightarrow> None)"

definition ffmpegStep :: "string list \<times> string list \<Rightarrow> string \<Rightarrow> string list \<times> string list" where
  "ffmpegStep acc line =
     (case ffmpegMatch line of
        None \<Rightarrow> acc
      | Some (d, m, names) \<Rightarrow>
          (let formats = map normalizeExt (splitChar CHR '','' names)
           in (if d = CHR ''D'' then fst acc @ formats else fst acc,
               if m = CHR ''E'' then snd acc @ formats else snd acc)))"

definition loadFfmpegFormats :: "env \<Rightarrow> string \<Rightarrow> string list \<times> string list" where
  "loadFfmpegFormats e b =
     (case execFile e b [''-hide_banner'', ''-formats''] of
        Resolved out _ \<Rightarrow>
          (let acc = foldl ffmpegStep ([], []) (splitLines out)
           in (uniqueSorted (fst acc), uniqueSorted (snd acc)))
      | Rejected _ _ _ \<Rightarrow> ([], []))"

definition loadPandocFormats :: "env \<Rightarrow> string \<Rightarrow> string list \<times> string list" where
  "loadPandocFormats e b =
     (case execFile e b [''--list-input-formats''] of
        Resolved inOut _ \<Rightarrow>
          (case execFile e b [''--list-output-formats''] of
             Resolved outOut _ \<Rightarrow>
               (uniqueSorted (map normalizeExt (splitWs inOut)),
                uniqueSorted (map normalizeExt (splitWs outOut)))
           | Rejected _ _ _ \<Rightarrow> ([], []))
      | Rejected _ _ _ \<Rightarrow> ([], []))"

section \<open>The tool registry\<close>

text \<open>
  Each \<open>ensure\<close> function returns the cached entry when the key was written before, and
  otherwise looks for the executable, writes the cache and returns what it wrote.  The
  cache is passed in and handed back.
\<close>

definition ensureMagick :: "env \<Rightarrow> toolCache \<Rightarrow> ToolFormats option \<times> toolCache" where
  "ensureMagick e c =
     (case magick c of
        Some cached \<Rightarrow> (cached, c)
      | None \<Rightarrow>
          (let preferred = resolvePreferred e (magickPath (preferences e)) [''-version''];
               bin1 = (if truthy preferred then preferred
                       else (case firstResolved e
                                    (if isWindows e then [''magick''] else [''magick'', ''convert'']) of
                               Some candidate \<Rightarrow> Some candidate
                             | None \<Rightarrow> preferred));
               bin2 = (if truthy bin1 then bin1 else findMagickOnWindows e)
           in if \<not> truthy bin2 then (None, c\<lparr>magick := Some None\<rparr>)
              else
                (let b = the bin2;
                     formats = loadMagickFormats e b;
                     t = \<lparr>bin = b, input = fst formats, output' = snd formats\<rparr>
                 in (Some t, c\<lparr>magick := Some (Some t)\<rparr>))))"

definition ensureFfmpeg :: "env \<Rightarrow> toolCache \<Rightarrow> ToolFormats option \<times> toolCache" where
  "ensureFfmpeg e c =
     (case ffmpeg c of
        Some cached \<Rightarrow> (cached, c)
      | None \<Rightarrow>
          (let preferred = resolvePreferred e (ffmpegPath (preferences e)) [''-version''];
               bin0 = (case preferred of
                         Some b \<Rightarrow> Some b
                       | None \<Rightarrow> if truthy (findBinary e ''ffmpeg'') then Some ''ffmpeg'' else None)
           in if \<not> truthy bin0 then (None, c\<lparr>ffmpeg := Some None\<rparr>)
              else
                (let b = the bin0;
                     formats = loadFfmpegFormats e b;
                     t = \<lparr>bin = b, input = fst formats, output' = snd formats\<rparr>
                 in (Some t, c\<lparr>ffmpeg := Some (Some t)\<rparr>))))"

definition ensurePandoc :: "env \<Rightarrow> toolCache \<Rightarrow> ToolFormats option \<times> toolCache" where
  "ensurePandoc e c =
     (case pandoc c of
        Some cached \<Rightarrow> (cached, c)
      | None \<Rightarrow>
          (let preferred = resolvePreferred e (pandocPath (preferences e)) [''--version''];
               bin0 = (case preferred of
                         Some b \<Rightarrow> Some b
                       | None \<Rightarrow> if truthy (findBinary e ''pandoc'') then Some ''pandoc'' else None)
           in if \<not> truthy bin0 then (None, c\<lparr>pandoc := Some None\<rparr>)
              else
                (let b = the bin0;
                     formats = loadPandocFormats e b;
                     t = \<lparr>bin = b, input = fst formats, output' = snd formats\<rparr>
                 in (Some t, c\<lparr>pandoc := Some (Some t)\<rparr>))))"

definition ensureLibreOffice :: "env \<Rightarrow> toolCache \<Rightarrow> ToolFormats option \<times> toolCache" where
  "ensureLibreOffice e c =
     (case libreoffice c of
        Some cached \<Rightarrow> (cached, c)
      | None \<Rightarrow>
          (let preferred = resolvePreferred e (libreofficePath (preferences e)) [''--version'']
           in if truthy preferred then
                (let t = \<lparr>bin = the preferred, input = libreOfficeInput,
                          output' = libreOfficeOutput\<rparr>
                 in (Some t, c\<lparr>libreoffice := Some (Some t)\<rparr>))
              else
                (let bin0 = firstResolved e
                              (if isWindows e then [''soffice''] else [''soffice'', ''libreoffice''])
                 in if \<not> truthy bin0 then (None, c\<lparr>libreoffice := Some None\<rparr>)
                    else
                      (let t = \<lparr>bin = the bin0, input = libreOfficeInput,
                                output' = libreOfficeOutput\<rparr>
                       in (Some t, c\<lparr>libreoffice := Some (Some t)\<rparr>)))))"

text \<open>The registry function of a tool kind.\<close>

fun ensure :: "ConverterKind \<Rightarrow> env \<Rightarrow> toolCache \<Rightarrow> ToolFormats option \<times> toolCache" where
  "ensure Magick = ensureMagick"
| "ensure Ffmpeg = ensureFfmpeg"
| "ensure Pandoc = ensurePandoc"
| "ensure Libreoffice = ensureLibreOffice"

section \<open>Choosing the converter\<close>

fun getCategory :: "string \<Rightarrow> ConverterKind \<Rightarrow> FileCategory" where
  "getCategory ext Magick = Image"
| "getCategory ext Pandoc = Doc"
| "getCategory ext Libreoffice = Doc"
| "getCategory ext Ffmpeg =
     (if ext \<in> set audioExts then Audio else if ext \<in> set videoExts then Video else Unknown)"

text \<open>\<open>tool?.input.includes(ext)\<close>: false when the tool is \<open>null\<close>.\<close>

fun inputIncludes :: "ToolFormats option \<Rightarrow> string \<Rightarrow> bool" where
  "inputIncludes None ext = False"
| "inputIncludes (Some t) ext = (ext \<in> set (input t))"

text \<open>The object every branch of \<open>detectConverter\<close> returns, for its tool kind.\<close>

definition decision :: "ConverterKind \<Rightarrow> string \<Rightarrow> ToolFormats \<Rightarrow> ConverterDecision" where
  "decision k ext t =
     \<lparr>kind = k, tool = t, category = getCategory ext k,
      defaultOutput = pickDefaultOutput (getCategory ext k) (output' t)\<rparr>"

definition detectConverter :: "env \<Rightarrow> toolCache \<Rightarrow> string \<Rightarrow> ConverterDecision option \<times> toolCache" where
  "detectConverter e c ext =
     (let (magickTool, c1) = ensureMagick e c;
          (ffmpegTool, c2) = ensureFfmpeg e c1;
          (pandocTool, c3) = ensurePandoc e c2;
          (libreofficeTool, c4) = ensureLibreOffice e c3
      in (if ext \<in> set imagePreferredExts \<and> inputIncludes magickTool ext
            then map_option (decision Magick ext) magickTool
          else if inputIncludes ffmpegTool ext then map_option (decision Ffmpeg ext) ffmpegTool
          else if inputIncludes pandocTool ext then map_option (decision Pandoc ext) pandocTool
          else if inputIncludes libreofficeTool ext
            then map_option (decision Libreoffice ext) libreofficeTool
          else if inputIncludes magickTool ext then map_option (decision Magick ext) magickTool
          else if magickTool \<noteq> None then map_option (decision Magick ext) magickTool
          else if ffmpegTool \<noteq> None then map_option (decision Ffmpeg ext) ffmpegTool
          else if pandocTool \<noteq> None then map_option (decision Pandoc ext) pandocTool
          else if libreofficeTool \<noteq> None then map_option (decision Libreoffice ext) libreofficeTool
          else None,
          c4))"

text \<open>
  The four registry lookups at the head of \<open>detectConverter\<close>, in its order, each on the
  cache the one before it left.
\<close>

definition resolveAll ::
  "env \<Rightarrow> toolCache
     \<Rightarrow> ToolFormats option \<times> ToolFormats option \<times> ToolFormats option \<times> ToolFormats option" where
  "resolveAll e c =
     (let (magickTool, c1) = ensureMagick e c;
          (ffmpegTool, c2) = ensureFfmpeg e c1;
          (pandocTool, c3) = ensurePandoc e c2;
          (libreofficeTool, c4) = ensureLibreOffice e c3
      in (magickTool, ffmpegTool, pandocTool, libreofficeTool))"

section \<open>Paths\<close>

text \<open>
  The POSIX flavour of the \<open>path\<close> module (the separator is the slash).  It is library
  code; the definitions follow the library's algorithm on the segments of a path.
  \<open>normalizeString\<close> walks the segments, drops empty ones and single dots, and lets a
  double dot remove the segment before it.
\<close>

definition normalizeStep :: "bool \<Rightarrow> string list \<Rightarrow> string \<Rightarrow> string list" where
  "normalizeStep allowAboveRoot res seg =
     (if seg = [] \<or> seg = ''.'' then res
      else if seg = ''..'' then
        (if res \<noteq> [] \<and> last res \<noteq> ''..'' then butlast res
         else if allowAboveRoot then res @ [''..''] else res)
      else res @ [seg])"

definition normalizeString :: "string \<Rightarrow> bool \<Rightarrow> string list" where
  "normalizeString path allowAboveRoot =
     foldl (normalizeStep allowAboveRoot) [] (splitChar CHR ''/'' path)"

definition pathNormalize :: "string \<Rightarrow> string" where
  "pathNormalize path =
     (if path = [] then ''.''
      else
        (let isAbsolute = (hd path = CHR ''/'');
             trailingSeparator = (last path = CHR ''/'');
             p = joinWith ''/'' (normalizeString path (\<not> isAbsolute))
         in if p = [] then (if isAbsolute then ''/'' else if trailingSeparator then ''./'' else ''.'')
            else (if isAbsolute then ''/'' else []) @ p @ (if trailingSeparator then ''/'' else [])))"

text \<open>\<open>path.join(...args)\<close>: the non-empty arguments, joined by slashes and normalised.\<close>

definition pathJoin :: "string list \<Rightarrow> string" where
  "pathJoin args =
     (let parts = filter (\<lambda>a. a \<noteq> []) args
      in if parts = [] then ''.'' else pathNormalize (joinWith ''/'' parts))"

text \<open>The last segment of a path, trailing slashes aside.\<close>

definition lastSegment :: "string \<Rightarrow> string" where
  "lastSegment path =
     rev (takeWhile (\<lambda>c. c \<noteq> CHR ''/'') (dropWhile (\<lambda>c. c = CHR ''/'') (rev path)))"

text \<open>
  \<open>path.extname(path)\<close>: the last segment from its last dot on; empty when there is no
  dot, when the dot is the first character of the segment, or when the segment is \<open>..\<close>.
\<close>

definition pathExtname :: "string \<Rightarrow> string" where
  "pathExtname path =
     (let seg = lastSegment path;
          startDot = length seg - length (takeWhile (\<lambda>c. c \<noteq> CHR ''.'') (rev seg)) - 1
      in if CHR ''.'' \<notin> set seg \<or> startDot = 0 \<or> seg = ''..'' then [] else drop startDot seg)"

text \<open>
  \<open>path.basename(path, suffix)\<close>: the last segment, without the suffix when the segment
  ends with it and is more than it.  The source passes \<open>path.extname(path)\<close> as the
  suffix, which is empty or a proper end of the last segment; for such a suffix the
  definition is what the library's backward scan computes.
\<close>

definition pathBasename :: "string \<Rightarrow> string \<Rightarrow> string" where
  "pathBasename path suffix =
     (let seg = lastSegment path in
      if suffix \<noteq> [] \<and> length suffix \<le> length path then
        (if suffix = path then []
         else if suffix \<noteq> seg \<and> length suffix \<le> length seg
                 \<and> drop (length seg - length suffix) seg = suffix
              then take (length seg - length suffix) seg
              else seg)
      else seg)"

text \<open>
  \<open>path.dirname(path)\<close>: scanning backwards from the end to index 1, past the trailing
  slashes and past the last segment, to the slash that ends the directory part.
\<close>

definition pathDirname :: "string \<Rightarrow> string" where
  "pathDirname path =
     (if path = [] then ''.''
      else
        (let hasRoot = (hd path = CHR ''/'');
             scanned = dropWhile (\<lambda>c. c \<noteq> CHR ''/'')
                         (dropWhile (\<lambda>c. c = CHR ''/'') (rev (tl path)));
             end = length scanned
         in if scanned = [] then (if hasRoot then ''/'' else ''.'')
            else if hasRoot \<and> end = 1 then ''//''
            else take end path))"

definition posixPath :: pathModule where
  "posixPath =
     \<lparr>join = pathJoin, basename = pathBasename, extname = pathExtname, dirname = pathDirname\<rparr>"

text \<open>The \<open>path\<close> module of a host.\<close>

definition path :: "env \<Rightarrow> pathModule" where
  "path e = (if isWindows e then win32Path e else posixPath)"

text \<open>\<^verbatim>\<open>export const getFileExt = (filePath: string) => normalizeExt(path.extname(filePath));\<close>\<close>

definition getFileExt :: "env \<Rightarrow> string \<Rightarrow> string" where
  "getFileExt e filePath = normalizeExt (extname (path e) filePath)"

section \<open>The output path\<close>



section \<open>File names and directory prefixes\<close>

text \<open>
  A file name is one path segment: not empty, without a slash, and neither \<open>.\<close> nor
  \<open>..\<close>.  An extension that can end a file name has no slash and is not a lone dot.
\<close>

definition plainName :: "string \<Rightarrow> bool" where
  "plainName f = (f \<noteq> [] \<and> CHR ''/'' \<notin> set f \<and> f \<noteq> ''.'' \<and> f \<noteq> ''..'')"





definition savedName :: "string \<Rightarrow> string \<Rightarrow> string" where
  "savedName inputPath outputExt =
     pathBasename inputPath (pathExtname inputPath) @ ''.'' @ normalizeExt outputExt"


section \<open>Running the converter\<close>

text \<open>An external-process invocation: the command and its arguments.\<close>

type_synonym invocation = "string \<times> string list"

text \<open>
  \<open>runCommand\<close>: the two streams on success; on failure an error whose message is the
  non-empty ones of message, standard output and standard error, joined by line feeds.
\<close>

definition runCommand :: "env \<Rightarrow> string \<Rightarrow> string list \<Rightarrow> error + string \<times> string" where
  "runCommand e cmd args =
     (case execFile e cmd args of
        Resolved out err \<Rightarrow> Inr (out, err)
      | Rejected message out err \<Rightarrow>
          (let details = joinWith [CHR 0x0A] (filter (\<lambda>s. s \<noteq> []) [message, out, err])
           in Inl (Error (if details = [] then ''Conversion failed'' else details))))"

text \<open>\<open>await access(p)\<close>: resolves, or rejects with the system's error.\<close>

definition fsAccess :: "env \<Rightarrow> string \<Rightarrow> error + unit" where
  "fsAccess e p = (if access e p then Inr () else Inl (Error ''ENOENT''))"

text \<open>\<open>try { body } catch { handler }\<close>.\<close>

definition tryCatch :: "error + 'a \<Rightarrow> (error \<Rightarrow> error + 'a) \<Rightarrow> error + 'a" where
  "tryCatch body handler = (case body of Inl err \<Rightarrow> handler err | Inr v \<Rightarrow> Inr v)"

definition destinationExists :: string where
  "destinationExists = ''Output file already exists. Enable overwrite or choose another name.''"

text \<open>
  Lines 474 to 481:
  \<^verbatim>\<open>if (!overwrite) {
    try {
      await access(outputPath);
      throw new Error("Output file already exists. Enable overwrite or choose another name.");
    } catch {
      // file does not exist
    }
  }\<close>
  The \<open>throw\<close> stands inside the \<open>try\<close> block, so the \<open>catch\<close> receives the rejection of
  \<open>access\<close> and the thrown error alike, and its body is empty.
\<close>

definition overwriteCheck :: "env \<Rightarrow> string \<Rightarrow> bool \<Rightarrow> error + unit" where
  "overwriteCheck e outputPath overwrite =
     (if \<not> overwrite then
        tryCatch
          (case fsAccess e outputPath of
             Inl err \<Rightarrow> Inl err
           | Inr _ \<Rightarrow> Inl (Error destinationExists))
          (\<lambda>err. Inr ())
      else Inr ())"

text \<open>
  \<open>convertWithTool\<close>, with the fields of its argument as arguments.  The result is what
  the promise settles to, and the list of the external processes the call has started.
  (The \<open>default\<close> branch of the \<open>switch\<close> cannot be reached by a \<open>ConverterKind\<close>.)
\<close>

definition convertWithTool ::
  "env \<Rightarrow> string \<Rightarrow> string \<Rightarrow> string \<Rightarrow> bool \<Rightarrow> ConverterKind \<Rightarrow> ToolFormats
     \<Rightarrow> (error + string) \<times> invocation list" where
  "convertWithTool e inputPath outputPath outputExt overwrite converter t =
     (case overwriteCheck e outputPath overwrite of
        Inl err \<Rightarrow> (Inl err, [])
      | Inr _ \<Rightarrow>
          (let args =
                 (case converter of
                    Magick \<Rightarrow> [inputPath, outputPath]
                  | Ffmpeg \<Rightarrow>
                      [''-hide_banner'', ''-loglevel'', ''error'']
                        @ [if overwrite then ''-y'' else ''-n'']
                        @ [''-i'', inputPath, outputPath]
                  | Pandoc \<Rightarrow> [inputPath, ''-o'', outputPath]
                  | Libreoffice \<Rightarrow>
                      [''--headless'', ''--convert-to'', outputExt, ''--outdir'',
                       dirname (path e) outputPath, inputPath])
           in (case runCommand e (bin t) args of
                 Inl err \<Rightarrow> Inl err
               | Inr _ \<Rightarrow> Inr outputPath,
               [(bin t, args)])))"

section \<open>The clipboard\<close>

definition readClipboardImageWindows :: "env \<Rightarrow> string \<Rightarrow> string option \<times> invocation list" where
  "readClipboardImageWindows e unique =
     (let tempPath = join (path e) [tmpdir e, ''raycast-clipboard-'' @ unique @ ''.png''];
          quote = [CHR 0x27];
          script = joinWith '' ''
            [''Add-Type -AssemblyName System.Windows.Forms;'',
             ''Add-Type -AssemblyName System.Drawing;'',
             ''$img = [System.Windows.Forms.Clipboard]::GetImage();'',
             ''if ($null -eq $img) { exit 2 }'',
             ''$img.Save('' @ quote
               @ concat (map (\<lambda>c. if c = CHR 0x27 then quote @ quote else [c]) tempPath)
               @ quote @ '', [System.Drawing.Imaging.ImageFormat]::Png);'',
             ''$img.Dispose();''];
          args = [''-NoProfile'', ''-NonInteractive'', ''-Command'', script]
      in (case execFile e ''powershell'' args of
            Resolved _ _ \<Rightarrow> if access e tempPath then Some tempPath else None
          | Rejected _ _ _ \<Rightarrow> None,
          [(''powershell'', args)]))"

definition readClipboardImageMac :: "env \<Rightarrow> string \<Rightarrow> string option \<times> invocation list" where
  "readClipboardImageMac e unique =
     (let locate = (if isWindows e then ''where'' else ''which'', [''pngpaste''])
      in case findBinary e ''pngpaste'' of
           None \<Rightarrow> (None, [locate])
         | Some pngpaste \<Rightarrow>
             (let tempPath = join (path e) [tmpdir e, ''raycast-clipboard-'' @ unique @ ''.png'']
              in (case execFile e pngpaste [tempPath] of
                    Resolved _ _ \<Rightarrow> if access e tempPath then Some tempPath else None
                  | Rejected _ _ _ \<Rightarrow> None,
                  [locate, (pngpaste, [tempPath])])))"

definition readClipboardImageToTemp :: "env \<Rightarrow> string \<Rightarrow> string option \<times> invocation list" where
  "readClipboardImageToTemp e unique =
     (if isWindows e then readClipboardImageWindows e unique else readClipboardImageMac e unique)"

text \<open>
  \<open>readClipboardFile\<close>: what the promise settles to (a path, \<open>null\<close>, or a thrown error),
  and the external processes started on the way.  The clipboard-image capture is the call
  of \<open>readClipboardImageToTemp\<close>, which always starts a process; nothing else in this
  function does.  \<open>fileURLToPath\<close> is called outside the \<open>try\<close> block.
\<close>

definition readClipboardFile :: "env \<Rightarrow> string \<Rightarrow> (error + string option) \<times> invocation list" where
  "readClipboardFile e unique =
     (let content = clipboardRead e in
      if truthy (file' content) then (Inr (file' content), [])
      else if text' content \<noteq> [] then
        (let trimmed = trim (text' content) in
         if trimmed = [] then (Inr None, [])
         else
           (case (if startsWith trimmed ''file://'' then fileURLToPath e trimmed else Inr trimmed) of
              Inl err \<Rightarrow> (Inl err, [])
            | Inr pathCandidate \<Rightarrow>
                (if access e pathCandidate then Inr (Some pathCandidate) else Inr None, [])))
      else
        (let (imagePath, started) = readClipboardImageToTemp e unique
         in (Inr (if truthy imagePath then imagePath else None), started)))"

section \<open>Properties of extension lists\<close>

text \<open>
  What the claims say about an extension: it is lower-cased when \<open>toLowerCase\<close> leaves it
  as it is, and it has no leading dot.
\<close>

definition lowerCased :: "string \<Rightarrow> bool" where
  "lowerCased s = (toLowerCase s = s)"

definition noLeadingDot :: "string \<Rightarrow> bool" where
  "noLeadingDot s = (\<not> startsWith s ''.'')"

text \<open>A listed format name that keeps a dot in front after normalisation.\<close>

definition doubleDotted :: "string \<Rightarrow> bool" where
  "doubleDotted n = startsWith (trim n) ''..''"

text \<open>
  A list as \<open>uniqueSorted\<close> leaves it, built from normalised format names: without
  duplicates, sorted, without the empty string, every entry the normal form of a name.
\<close>

definition normalizedFrom :: "string list \<Rightarrow> string list \<Rightarrow> bool" where
  "normalizedFrom names xs =
     (distinct xs \<and> sorted xs \<and> [] \<notin> set xs \<and> set xs \<subseteq> normalizeExt ` set names)"

section \<open>What the registry computes for a tool kind\<close>

text \<open>
  The input and output lists that the registry gives the descriptor of a tool kind whose
  executable is \<open>b\<close>: the parsed listing for the three tools that are asked for their
  formats, two constants for the office suite.
\<close>

fun formatsOf :: "ConverterKind \<Rightarrow> env \<Rightarrow> string \<Rightarrow> string list \<times> string list" where
  "formatsOf Magick e b = loadMagickFormats e b"
| "formatsOf Ffmpeg e b = loadFfmpegFormats e b"
| "formatsOf Pandoc e b = loadPandocFormats e b"
| "formatsOf Libreoffice e b = (libreOfficeInput, libreOfficeOutput)"

fun cacheEntry :: "ConverterKind \<Rightarrow> toolCache \<Rightarrow> ToolFormats option option" where
  "cacheEntry Magick c = magick c"
| "cacheEntry Ffmpeg c = ffmpeg c"
| "cacheEntry Pandoc c = pandoc c"
| "cacheEntry Libreoffice c = libreoffice c"

text \<open>
  A cache of this host: every descriptor in it holds the lists the registry computes on the
  host for its kind and executable.  The empty cache is one, and the registry keeps it so.
\<close>

definition cacheOk :: "env \<Rightarrow> toolCache \<Rightarrow> bool" where
  "cacheOk e c =
     list_all
       (\<lambda>k. case cacheEntry k c of
               Some (Some t) \<Rightarrow> (input t, output' t) = formatsOf k e (bin t)
             | _ \<Rightarrow> True)
       [Magick, Ffmpeg, Pandoc, Libreoffice]"

text \<open>
  The format names a listing yields, before \<open>normalizeExt\<close>: per line of the image tool's
  listing the format without its trailing asterisk, per matching line of the media tool's
  listing the comma-separated names, and the words of the markup tool's two listings.
\<close>

definition magickNames :: "string list \<Rightarrow> string list" where
  "magickNames lines =
     map (\<lambda>entry. stripTrailingStar (fst entry)) (List.map_filter magickLineEntry lines)"

definition ffmpegNames :: "string list \<Rightarrow> string list" where
  "ffmpegNames lines =
     concat (map (\<lambda>(d, m, names). splitChar CHR '','' names) (List.map_filter ffmpegMatch lines))"

fun listedNames :: "ConverterKind \<Rightarrow> env \<Rightarrow> string \<Rightarrow> string list" where
  "listedNames Magick e b =
     (case execFile e b [''-list'', ''format''] of
        Resolved out _ \<Rightarrow> magickNames (splitLines out)
      | Rejected _ _ _ \<Rightarrow> [])"
| "listedNames Ffmpeg e b =
     (case execFile e b [''-hide_banner'', ''-formats''] of
        Resolved out _ \<Rightarrow> ffmpegNames (splitLines out)
      | Rejected _ _ _ \<Rightarrow> [])"
| "listedNames Pandoc e b =
     (case execFile e b [''--list-input-formats''] of
        Resolved inOut _ \<Rightarrow>
          (case execFile e b [''--list-output-formats''] of
             Resolved outOut _ \<Rightarrow> splitWs inOut @ splitWs outOut
           | Rejected _ _ _ \<Rightarrow> [])
      | Rejected _ _ _ \<Rightarrow> [])"
| "listedNames Libreoffice e b = []"

section \<open>Concrete environments\<close>

text \<open>
  A POSIX host without configured paths, given by what its processes answer, which files
  can be accessed and what the clipboard holds.  Its \<open>fileURLToPath\<close> rejects a URL with
  an encoded slash, as Node does, and otherwise returns what follows \<open>file://\<close>.  The
  Windows flavour of the \<open>path\<close> module is never consulted on it; the field holds the
  POSIX flavour.
\<close>

definition posixHost ::
  "(string \<Rightarrow> string list \<Rightarrow> exec_result) \<Rightarrow> (string \<Rightarrow> bool) \<Rightarrow> ClipboardContent \<Rightarrow> env" where
  "posixHost exec acc clip =
     \<lparr>isWindows = False,
      preferences = \<lparr>magickPath = None, ffmpegPath = None, pandocPath = None,
                     libreofficePath = None\<rparr>,
      execFile = exec,
      access = acc,
      scanProgramFiles = None,
      tmpdir = ''/tmp'',
      clipboardRead = clip,
      fileURLToPath =
        (\<lambda>u. if u = ''file:///a%2Fb''
             then Inl (Error ''File URL path must not include encoded / characters'')
             else Inr (drop 7 u)),
      win32Path = posixPath\<rparr>"

definition emptyClipboard :: ClipboardContent where
  "emptyClipboard = \<lparr>text' = [], file' = None\<rparr>"

text \<open>A host with the markup tool and the office suite on the search path, and nothing else.\<close>

definition docsExec :: "string \<Rightarrow> string list \<Rightarrow> exec_result" where
  "docsExec cmd args =
     (if cmd = ''which'' \<and> args = [''pandoc''] then Resolved (''/usr/bin/pandoc'' @ [CHR 0x0A]) []
      else if cmd = ''which'' \<and> args = [''soffice'']
        then Resolved (''/usr/bin/soffice'' @ [CHR 0x0A]) []
      else if cmd = ''pandoc'' \<and> args = [''--list-input-formats'']
        then Resolved (''docx'' @ [CHR 0x0A] @ ''html'' @ [CHR 0x0A] @ ''markdown'' @ [CHR 0x0A]) []
      else if cmd = ''pandoc'' \<and> args = [''--list-output-formats'']
        then Resolved (''docx'' @ [CHR 0x0A] @ ''html'' @ [CHR 0x0A] @ ''pdf'' @ [CHR 0x0A]) []
      else Rejected ''not found'' [] [])"

definition docsHost :: env where
  "docsHost = posixHost docsExec (\<lambda>p. False) emptyClipboard"

definition docsPandoc :: ToolFormats where
  "docsPandoc =
     \<lparr>bin = ''pandoc'', input = [''docx'', ''html'', ''markdown''],
      output' = [''docx'', ''html'', ''pdf'']\<rparr>"

definition docsOffice :: ToolFormats where
  "docsOffice = \<lparr>bin = ''soffice'', input = libreOfficeInput, output' = libreOfficeOutput\<rparr>"

definition docxDecision :: ConverterDecision where
  "docxDecision = \<lparr>kind = Pandoc, tool = docsPandoc, category = Doc, defaultOutput = ''pdf''\<rparr>"

text \<open>A host with the media tool on the search path, whose format listing fails.\<close>

definition bareExec :: "string \<Rightarrow> string list \<Rightarrow> exec_result" where
  "bareExec cmd args =
     (if cmd = ''which'' \<and> args = [''ffmpeg''] then Resolved (''/usr/bin/ffmpeg'' @ [CHR 0x0A]) []
      else Rejected ''failed'' [] [])"

definition bareHost :: env where
  "bareHost = posixHost bareExec (\<lambda>p. False) emptyClipboard"

definition bareFfmpeg :: ToolFormats where
  "bareFfmpeg = \<lparr>bin = ''ffmpeg'', input = [], output' = []\<rparr>"

definition movDecision :: ConverterDecision where
  "movDecision = \<lparr>kind = Ffmpeg, tool = bareFfmpeg, category = Video, defaultOutput = ''mp4''\<rparr>"

text \<open>
  A host with the image tool, where every process succeeds and the file
  \<open>/out/photo.png\<close> exists already.
\<close>

definition photoHost :: env where
  "photoHost = posixHost (\<lambda>cmd args. Resolved [] []) (\<lambda>p. p = ''/out/photo.png'') emptyClipboard"

definition photoMagick :: ToolFormats where
  "photoMagick = \<lparr>bin = ''magick'', input = [''heic'', ''png''], output' = [''jpg'', ''png'']\<rparr>"

text \<open>
  A host whose clipboard holds no file and, as text, a \<open>file:\<close> URL with an encoded slash;
  no path is accessible and no process can be started.
\<close>

definition urlHost :: env where
  "urlHost =
     posixHost (\<lambda>cmd args. Rejected ''failed'' [] []) (\<lambda>p. False)
       \<lparr>text' = ''file:///a%2Fb'', file' = None\<rparr>"

text \<open>Two values of \<open>randomUUID()\<close>.\<close>

definition uuidA :: string where
  "uuidA = ''123e4567-e89b-42d3-a456-426614174000''"


text \<open>A host whose markup tool lists an input format with two dots in front.\<close>

definition dotsExec :: "string \<Rightarrow> string list \<Rightarrow> exec_result" where
  "dotsExec cmd args =
     (if cmd = ''which'' \<and> args = [''pandoc''] then Resolved (''/usr/bin/pandoc'' @ [CHR 0x0A]) []
      else if cmd = ''pandoc'' \<and> args = [''--list-input-formats'']
        then Resolved (''..md'' @ [CHR 0x0A]) []
      else if cmd = ''pandoc'' \<and> args = [''--list-output-formats'']
        then Resolved (''pdf'' @ [CHR 0x0A]) []
      else Rejected ''not found'' [] [])"

definition dotsHost :: env where
  "dotsHost = posixHost dotsExec (\<lambda>p. False) emptyClipboard"

definition dotsPandoc :: ToolFormats where
  "dotsPandoc = \<lparr>bin = ''pandoc'', input = [''.md''], output' = [''pdf'']\<rparr>"

section \<open>Extension normalisation is idempotent up to a second dot\<close>

lemma toLowerChar_cases:
  "toLowerChar c = c \<or> (c \<in> set upperChars \<and> toLowerChar c \<in> set lowerChars)"
proof (cases "map_of (zip upperChars lowerChars) c")
  case None
  then show ?thesis by (simp add: toLowerChar_def)
next
  case (Some d)
  then have "(c, d) \<in> set (zip upperChars lowerChars)"
    by (rule map_of_SomeD)
  then have "c \<in> set upperChars" and "d \<in> set lowerChars"
    by (auto dest: set_zip_leftD set_zip_rightD)
  with Some show ?thesis by (simp add: toLowerChar_def)
qed

lemma toLowerChar_fixes_lower:
  assumes "c \<in> set lowerChars"
  shows "toLowerChar c = c"
proof -
  from assms have "c \<notin> set upperChars"
    by (auto simp: lowerChars_def upperChars_def)
  with toLowerChar_cases [of c] show ?thesis by blast
qed

lemma toLowerChar_idem: "toLowerChar (toLowerChar c) = toLowerChar c"
  using toLowerChar_cases [of c] toLowerChar_fixes_lower by auto

lemma toLowerCase_idem: "toLowerCase (toLowerCase s) = toLowerCase s"
  by (simp add: toLowerCase_def toLowerChar_idem)

lemma toLowerChar_isSpace: "isSpace (toLowerChar c) = isSpace c"
proof -
  have "\<not> isSpace d" if "d \<in> set upperChars \<or> d \<in> set lowerChars" for d
    using that by (auto simp: isSpace_def upperChars_def lowerChars_def)
  with toLowerChar_cases [of c] show ?thesis by metis
qed

lemma toLowerChar_dot: "(toLowerChar c = CHR ''.'') = (c = CHR ''.'')"
proof -
  have "d \<noteq> CHR ''.''" if "d \<in> set upperChars \<or> d \<in> set lowerChars" for d
    using that by (auto simp: upperChars_def lowerChars_def)
  with toLowerChar_cases [of c] show ?thesis by metis
qed

lemma trimStart_toLowerCase: "trimStart (toLowerCase s) = toLowerCase (trimStart s)"
  by (induction s) (simp_all add: trimStart_def toLowerCase_def toLowerChar_isSpace)

lemma trimEnd_toLowerCase: "trimEnd (toLowerCase s) = toLowerCase (trimEnd s)"
proof -
  have "dropWhile isSpace (map toLowerChar t) = map toLowerChar (dropWhile isSpace t)" for t
    by (induction t) (simp_all add: toLowerChar_isSpace)
  then show ?thesis
    by (simp add: trimEnd_def toLowerCase_def rev_map)
qed

lemma trim_toLowerCase: "trim (toLowerCase s) = toLowerCase (trim s)"
  by (simp add: trim_def trimStart_toLowerCase trimEnd_toLowerCase)

lemma stripLeadingDot_toLowerCase:
  "stripLeadingDot (toLowerCase s) = toLowerCase (stripLeadingDot s)"
  by (cases s) (simp_all add: toLowerCase_def toLowerChar_dot)

lemma normalizeExt_twice:
  "normalizeExt (normalizeExt v) =
     toLowerCase (stripLeadingDot (trim (stripLeadingDot (trim v))))"
  by (simp add: normalizeExt_def trim_toLowerCase stripLeadingDot_toLowerCase toLowerCase_idem)

lemma trimEnd_no_trailing_space:
  "s \<noteq> [] \<Longrightarrow> \<not> isSpace (last s) \<Longrightarrow> trimEnd s = s"
  by (cases s rule: rev_cases) (simp_all add: trimEnd_def)

lemma trimEnd_last: "trimEnd s \<noteq> [] \<Longrightarrow> \<not> isSpace (last (trimEnd s))"
proof -
  assume ne: "trimEnd s \<noteq> []"
  then have "dropWhile isSpace (rev s) \<noteq> []"
    by (simp add: trimEnd_def)
  then have "\<not> isSpace (hd (dropWhile isSpace (rev s)))"
    by (rule hd_dropWhile)
  moreover have "last (trimEnd s) = hd (dropWhile isSpace (rev s))"
    by (simp add: trimEnd_def last_rev)
  ultimately show ?thesis by simp
qed

lemma trimStart_hd: "trimStart s \<noteq> [] \<Longrightarrow> \<not> isSpace (hd (trimStart s))"
  unfolding trimStart_def by (rule hd_dropWhile)

lemma trimEnd_hd:
  assumes "s \<noteq> []" and "\<not> isSpace (hd s)"
  shows "trimEnd s \<noteq> [] \<and> hd (trimEnd s) = hd s"
proof -
  from assms obtain c cs where s: "s = c # cs" and c: "\<not> isSpace c"
    by (cases s) auto
  have "dropWhile isSpace (rev cs @ [c]) = dropWhile isSpace (rev cs) @ [c]"
    using c by (simp add: dropWhile_append3)
  then have "trimEnd s = c # rev (dropWhile isSpace (rev cs))"
    by (simp add: trimEnd_def s)
  then show ?thesis by (simp add: s)
qed

lemma trim_shape:
  "trim v = [] \<or> (\<not> isSpace (hd (trim v)) \<and> \<not> isSpace (last (trim v)))"
proof (cases "trimStart v = []")
  case True
  then show ?thesis by (simp add: trim_def trimEnd_def)
next
  case False
  then have h: "\<not> isSpace (hd (trimStart v))" by (rule trimStart_hd)
  from trimEnd_hd [OF False h] have "trim v \<noteq> []" and "hd (trim v) = hd (trimStart v)"
    by (simp_all add: trim_def)
  moreover from \<open>trim v \<noteq> []\<close> have "\<not> isSpace (last (trim v))"
    unfolding trim_def by (rule trimEnd_last)
  ultimately show ?thesis using h by simp
qed

lemma trim_fixed:
  assumes "s \<noteq> []" and "\<not> isSpace (hd s)" and "\<not> isSpace (last s)"
  shows "trim s = s"
proof -
  from assms(1,2) have "trimStart s = s"
    by (cases s) (simp_all add: trimStart_def)
  with assms(1,3) show ?thesis
    by (simp add: trim_def trimEnd_no_trailing_space)
qed

lemma length_trimStart: "length (trimStart s) \<le> length s"
  by (simp add: trimStart_def length_dropWhile_le)

lemma length_trimEnd: "length (trimEnd s) \<le> length s"
  using length_dropWhile_le [of isSpace "rev s"] by (simp add: trimEnd_def)

lemma length_trim: "length (trim s) \<le> length s"
  unfolding trim_def by (rule order_trans [OF length_trimEnd length_trimStart])

lemma trim_changes_leading_space:
  assumes "s \<noteq> []" and "isSpace (hd s)"
  shows "length (trim s) < length s"
proof -
  from assms obtain c cs where s: "s = c # cs" and c: "isSpace c"
    by (cases s) auto
  have "length (trimEnd (trimStart s)) \<le> length (trimStart s)"
    by (rule length_trimEnd)
  also have "\<dots> \<le> length cs"
    using c by (simp add: trimStart_def s length_dropWhile_le)
  finally show ?thesis by (simp add: trim_def s)
qed

lemma second_pass_fixed:
  assumes "\<not> dotThenDotOrSpace t"
    and "t = [] \<or> (\<not> isSpace (hd t) \<and> \<not> isSpace (last t))"
  shows "stripLeadingDot (trim (stripLeadingDot t)) = stripLeadingDot t"
proof (cases t)
  case Nil
  then show ?thesis by (simp add: trim_def trimStart_def trimEnd_def)
next
  case (Cons c cs)
  show ?thesis
  proof (cases "c = CHR ''.''")
    case False
    with Cons assms(2) have "trim t = t" by (intro trim_fixed) simp_all
    with Cons False show ?thesis by simp
  next
    case True
    show ?thesis
    proof (cases cs)
      case Nil
      with Cons True show ?thesis by (simp add: trim_def trimStart_def trimEnd_def)
    next
      case (Cons d ds)
      with \<open>t = c # cs\<close> True assms have d: "d \<noteq> CHR ''.''" "\<not> isSpace d" "\<not> isSpace (last cs)"
        by simp_all
      with Cons have "trim cs = cs" by (intro trim_fixed) simp_all
      with \<open>t = c # cs\<close> True Cons d show ?thesis by simp
    qed
  qed
qed

lemma second_pass_shrinks:
  assumes "dotThenDotOrSpace t"
  shows "length (stripLeadingDot (trim (stripLeadingDot t))) < length (stripLeadingDot t)"
proof -
  from assms obtain d ds where t: "t = CHR ''.'' # d # ds" and d: "d = CHR ''.'' \<or> isSpace d"
    by (cases t rule: dotThenDotOrSpace.cases) auto
  have strip_le: "length (stripLeadingDot u) \<le> length u" for u
    by (cases u) simp_all
  show ?thesis
  proof (cases "isSpace d")
    case True
    then have "length (trim (d # ds)) < length (d # ds)"
      by (intro trim_changes_leading_space) simp_all
    with strip_le [of "trim (d # ds)"] show ?thesis by (simp add: t)
  next
    case False
    with d have dd: "d = CHR ''.''" by simp
    from False have "trimStart (d # ds) = d # ds" by (simp add: trimStart_def)
    moreover from False have "trimEnd (d # ds) \<noteq> [] \<and> hd (trimEnd (d # ds)) = d"
      using trimEnd_hd [of "d # ds"] by simp
    ultimately obtain es where es: "trim (d # ds) = d # es"
      by (cases "trimEnd (d # ds)") (auto simp: trim_def)
    have "length (trim (d # ds)) \<le> length (d # ds)"
      by (rule length_trim)
    with es dd show ?thesis by (simp add: t)
  qed
qed

text \<open>
  C8, the claim as made: normalisation is idempotent on every string.  It is not: two leading
  dots lose one dot per pass.
\<close>

theorem normalizeExt_not_idempotent:
  "normalizeExt (normalizeExt ''..png'') \<noteq> normalizeExt ''..png''"
  by (simp add: normalizeExt_def trim_def trimStart_def trimEnd_def toLowerCase_def
      toLowerChar_def upperChars_def lowerChars_def isSpace_def)

text \<open>
  C8, as the code has it, for the strings over the characters U+0000 to U+00FF:
  \<open>normalizeExt\<close> strips one leading dot, so a second pass changes the result exactly
  when the trimmed input starts with a dot followed by another dot or by white space (as
  \<open>trim\<close> takes it, the no-break space included); on every other string normalisation is
  idempotent.  And \<open>normalizeExt(".PNG")\<close> is \<open>"png"\<close>.
\<close>

theorem normalizeExt_idempotent_iff:
  "(normalizeExt (normalizeExt x) = normalizeExt x) = (\<not> dotThenDotOrSpace (trim x))
   \<and> normalizeExt ''.PNG'' = ''png''"
proof
  show "(normalizeExt (normalizeExt x) = normalizeExt x) = (\<not> dotThenDotOrSpace (trim x))"
  proof (cases "dotThenDotOrSpace (trim x)")
    case True
    from second_pass_shrinks [OF True]
    have "length (normalizeExt (normalizeExt x)) < length (normalizeExt x)"
      by (simp add: normalizeExt_twice) (simp add: normalizeExt_def toLowerCase_def)
    with True show ?thesis by auto
  next
    case False
    from second_pass_fixed [OF False trim_shape]
    have "normalizeExt (normalizeExt x) = normalizeExt x"
      by (simp add: normalizeExt_twice) (simp add: normalizeExt_def)
    with False show ?thesis by simp
  qed
  show "normalizeExt ''.PNG'' = ''png''"
    by (simp add: normalizeExt_def trim_def trimStart_def trimEnd_def toLowerCase_def
        toLowerChar_def upperChars_def lowerChars_def isSpace_def)
qed

theorem normalizeExt_idempotent_iff_witness:
  "\<not> dotThenDotOrSpace (trim '' .JPeG '')
   \<and> normalizeExt (normalizeExt '' .JPeG '') = normalizeExt '' .JPeG ''
   \<and> normalizeExt '' .JPeG '' = ''jpeg''"
proof -
  have t: "trim '' .JPeG '' = ''.JPeG''"
    by (simp add: trim_def trimStart_def trimEnd_def isSpace_def)
  have n: "normalizeExt '' .JPeG '' = ''jpeg''"
    by (simp add: normalizeExt_def t toLowerCase_def toLowerChar_def upperChars_def
        lowerChars_def)
  have d: "\<not> dotThenDotOrSpace (trim '' .JPeG '')"
    by (simp add: t isSpace_def)
  from normalizeExt_idempotent_iff [of "'' .JPeG ''"] d n show ?thesis by simp
qed

section \<open>The default output is one of the outputs\<close>

lemma firstIncluded_find:
  "firstIncluded preferred outputs = find (\<lambda>p. p \<in> set outputs) preferred"
  by (induction preferred) simp_all

lemma firstIncluded_member:
  "firstIncluded preferred outputs = Some candidate \<Longrightarrow> candidate \<in> set outputs"
  by (induction preferred) (simp_all split: if_splits)

lemma pickDefaultOutput_in_outputs:
  assumes "outputs \<noteq> []"
  shows "pickDefaultOutput c outputs \<in> set outputs"
proof (cases "firstIncluded (preferredByCategory c) outputs")
  case None
  with assms show ?thesis
    by (cases outputs) (simp_all add: pickDefaultOutput_def)
next
  case (Some candidate)
  with firstIncluded_member [OF Some] show ?thesis
    by (simp add: pickDefaultOutput_def)
qed

text \<open>
  C3: for every category and every non-empty list of outputs, \<open>pickDefaultOutput\<close> returns
  an element of the list: the first entry of the category's preference list that the list
  contains, or else the first element of the list.
\<close>

theorem pickDefaultOutput_member:
  assumes "outputs \<noteq> []"
  shows "pickDefaultOutput c outputs \<in> set outputs
         \<and> pickDefaultOutput c outputs =
             (case find (\<lambda>p. p \<in> set outputs) (preferredByCategory c) of
                Some p \<Rightarrow> p
              | None \<Rightarrow> hd outputs)"
proof (cases "firstIncluded (preferredByCategory c) outputs")
  case None
  from assms obtain out rest where "outputs = out # rest"
    by (cases outputs) auto
  with None show ?thesis
    by (simp add: pickDefaultOutput_def firstIncluded_find)
next
  case (Some candidate)
  then have "candidate \<in> set outputs" by (rule firstIncluded_member)
  with Some show ?thesis
    by (simp add: pickDefaultOutput_def firstIncluded_find)
qed

theorem pickDefaultOutput_member_witness:
  "[''mp4'', ''mov'', ''mkv''] \<noteq> []
   \<and> pickDefaultOutput Video [''mkv'', ''mov'', ''mp4''] \<in> set [''mkv'', ''mov'', ''mp4'']
   \<and> pickDefaultOutput Video [''mkv'', ''mov'', ''mp4''] = ''mp4''
   \<and> pickDefaultOutput Audio [''mkv'', ''mov'', ''mp4''] = ''mkv''"
proof -
  have ne: "[''mkv'', ''mov'', ''mp4''] \<noteq> []" by simp
  from pickDefaultOutput_member [OF ne, of Video] pickDefaultOutput_member [OF ne, of Audio]
  show ?thesis by simp
qed

text \<open>
  C4: with an empty list of outputs \<open>pickDefaultOutput\<close> returns the first entry of the
  category's preference list, a non-empty string, for every category.
\<close>

theorem pickDefaultOutput_empty:
  "pickDefaultOutput c [] \<noteq> []
   \<and> pickDefaultOutput c [] =
       (case c of Image \<Rightarrow> ''png'' | Audio \<Rightarrow> ''wav'' | Video \<Rightarrow> ''mp4'' | Doc \<Rightarrow> ''pdf''
        | Unknown \<Rightarrow> ''png'')"
  by (cases c) (simp_all add: pickDefaultOutput_def)

section \<open>The priority order of the converter decision\<close>

lemma detectConverter_resolved:
  assumes "resolveAll e c = (m, f, p, l)"
  shows "fst (detectConverter e c ext) =
           (if ext \<in> set imagePreferredExts \<and> inputIncludes m ext
              then map_option (decision Magick ext) m
            else if inputIncludes f ext then map_option (decision Ffmpeg ext) f
            else if inputIncludes p ext then map_option (decision Pandoc ext) p
            else if inputIncludes l ext then map_option (decision Libreoffice ext) l
            else if inputIncludes m ext then map_option (decision Magick ext) m
            else if m \<noteq> None then map_option (decision Magick ext) m
            else if f \<noteq> None then map_option (decision Ffmpeg ext) f
            else if p \<noteq> None then map_option (decision Pandoc ext) p
            else if l \<noteq> None then map_option (decision Libreoffice ext) l
            else None)"
proof -
  obtain m' c1 where 1: "ensureMagick e c = (m', c1)" by (cases "ensureMagick e c")
  obtain f' c2 where 2: "ensureFfmpeg e c1 = (f', c2)" by (cases "ensureFfmpeg e c1")
  obtain p' c3 where 3: "ensurePandoc e c2 = (p', c3)" by (cases "ensurePandoc e c2")
  obtain l' c4 where 4: "ensureLibreOffice e c3 = (l', c4)" by (cases "ensureLibreOffice e c3")
  from assms have eq: "m' = m" "f' = f" "p' = p" "l' = l"
    by (simp_all add: resolveAll_def 1 2 3 4)
  show ?thesis
    unfolding detectConverter_def 1 2 3 4 eq Let_def prod.case fst_conv ..
qed

lemma resolveAll_total: "\<exists>m f p l. resolveAll e c = (m, f, p, l)"
  by (cases "resolveAll e c") auto

lemma detectConverter_is_decision:
  assumes "fst (detectConverter e c ext) = Some d"
  shows "\<exists>k t. d = decision k ext t"
proof -
  obtain m f p l where r: "resolveAll e c = (m, f, p, l)"
    using resolveAll_total by blast
  from assms show ?thesis
    unfolding detectConverter_resolved [OF r]
    by (auto split: if_splits)
qed

lemma docsHost_resolveAll:
  "resolveAll docsHost emptyCache = (None, None, Some docsPandoc, Some docsOffice)"
  by code_simp

lemma kind_decision: "kind (decision k ext t) = k" and tool_decision: "tool (decision k ext t) = t"
  by (simp_all add: decision_def)

text \<open>
  C2, the claim as made, in its last sentence: an extension in a tool's declared input set
  selects that tool, the image-tool-first rule aside.  On a host with the markup tool and
  the office suite, \<open>docx\<close> is in the office suite's input list, is no image extension, and
  goes to the markup tool, which declares it too and comes first.
\<close>

theorem detectConverter_declared_input_not_selected:
  "resolveAll docsHost emptyCache = (None, None, Some docsPandoc, Some docsOffice)
   \<and> ''docx'' \<in> set (input docsOffice)
   \<and> ''docx'' \<notin> set imagePreferredExts
   \<and> map_option kind (fst (detectConverter docsHost emptyCache ''docx'')) = Some Pandoc"
proof -
  have "''docx'' \<in> set (input docsOffice)" "''docx'' \<notin> set imagePreferredExts"
    "''docx'' \<in> set (input docsPandoc)"
    by (simp_all add: docsOffice_def docsPandoc_def libreOfficeInput_def imagePreferredExts_def)
  then show ?thesis
    by (simp add: detectConverter_resolved [OF docsHost_resolveAll] docsHost_resolveAll
        kind_decision)
qed

text \<open>
  C2, as the code has it.  With \<open>m\<close>, \<open>f\<close>, \<open>p\<close>, \<open>l\<close> the registry's answers for the image,
  media, markup and office tool: \<open>detectConverter\<close> selects the image tool when the
  extension is a recognised image extension in the image tool's input list; otherwise the
  media tool, the markup tool, the office tool, the first of them whose input list has the
  extension; otherwise the first tool that is available, in the order image, media,
  markup, office; the decision carries the registry's descriptor of the selected kind; and
  the result is absent exactly when none of the four is available.  In particular, for an
  extension in a tool's input list: the image tool is selected when the extension is a
  recognised image extension, and also when no other tool's input list has the extension;
  the media tool is selected unless the extension is a recognised image extension in the
  image tool's input list; the markup tool is selected unless that image rule applies or
  the media tool's input list has the extension; the office tool is selected unless the
  image rule applies or the media tool's or the markup tool's input list has the extension.
\<close>

theorem detectConverter_priority:
  assumes "resolveAll e c = (m, f, p, l)"
  shows "map_option kind (fst (detectConverter e c ext)) =
           (if ext \<in> set imagePreferredExts \<and> inputIncludes m ext then Some Magick
            else if inputIncludes f ext then Some Ffmpeg
            else if inputIncludes p ext then Some Pandoc
            else if inputIncludes l ext then Some Libreoffice
            else if m \<noteq> None then Some Magick
            else if f \<noteq> None then Some Ffmpeg
            else if p \<noteq> None then Some Pandoc
            else if l \<noteq> None then Some Libreoffice
            else None)
         \<and> map_option tool (fst (detectConverter e c ext)) =
             (case map_option kind (fst (detectConverter e c ext)) of
                None \<Rightarrow> None
              | Some Magick \<Rightarrow> m | Some Ffmpeg \<Rightarrow> f | Some Pandoc \<Rightarrow> p | Some Libreoffice \<Rightarrow> l)
         \<and> ((fst (detectConverter e c ext) = None) = (m = None \<and> f = None \<and> p = None \<and> l = None))
         \<and> (inputIncludes m ext \<and> ext \<in> set imagePreferredExts
              \<longrightarrow> map_option kind (fst (detectConverter e c ext)) = Some Magick)
         \<and> (inputIncludes f ext \<and> \<not> (ext \<in> set imagePreferredExts \<and> inputIncludes m ext)
              \<longrightarrow> map_option kind (fst (detectConverter e c ext)) = Some Ffmpeg)
         \<and> (inputIncludes p ext \<and> \<not> (ext \<in> set imagePreferredExts \<and> inputIncludes m ext)
              \<and> \<not> inputIncludes f ext
              \<longrightarrow> map_option kind (fst (detectConverter e c ext)) = Some Pandoc)
         \<and> (inputIncludes l ext \<and> \<not> (ext \<in> set imagePreferredExts \<and> inputIncludes m ext)
              \<and> \<not> inputIncludes f ext \<and> \<not> inputIncludes p ext
              \<longrightarrow> map_option kind (fst (detectConverter e c ext)) = Some Libreoffice)
         \<and> (inputIncludes m ext \<and> \<not> inputIncludes f ext \<and> \<not> inputIncludes p ext
              \<and> \<not> inputIncludes l ext
              \<longrightarrow> map_option kind (fst (detectConverter e c ext)) = Some Magick)"
proof -
  note d = detectConverter_resolved [OF assms, of ext]
  have inc: "t \<noteq> None" if "inputIncludes t ext" for t
    using that by (cases t) simp_all
  show ?thesis
  proof (cases m; cases f; cases p; cases l)
  qed (simp_all add: d kind_decision tool_decision option.map_comp comp_def)
qed

theorem detectConverter_priority_witness:
  "resolveAll docsHost emptyCache = (None, None, Some docsPandoc, Some docsOffice)
   \<and> map_option kind (fst (detectConverter docsHost emptyCache ''markdown'')) = Some Pandoc
   \<and> map_option tool (fst (detectConverter docsHost emptyCache ''markdown'')) = Some docsPandoc
   \<and> fst (detectConverter docsHost emptyCache ''markdown'') \<noteq> None"
proof -
  have "''markdown'' \<notin> set imagePreferredExts" "''markdown'' \<in> set (input docsPandoc)"
    by (simp_all add: docsPandoc_def imagePreferredExts_def)
  with detectConverter_priority [OF docsHost_resolveAll, of "''markdown''"]
  show ?thesis by (auto simp: docsHost_resolveAll)
qed

text \<open>
  C5: in every decision that \<open>detectConverter\<close> produces, the default output is an element
  of the chosen tool's output list when that list is not empty, and the first entry of the
  category's preference list when it is empty.
\<close>

theorem detectConverter_defaultOutput:
  assumes "fst (detectConverter e c ext) = Some d"
  shows "(output' (tool d) \<noteq> [] \<longrightarrow> defaultOutput d \<in> set (output' (tool d)))
         \<and> (output' (tool d) = [] \<longrightarrow>
              defaultOutput d =
                (case category d of Image \<Rightarrow> ''png'' | Audio \<Rightarrow> ''wav'' | Video \<Rightarrow> ''mp4''
                 | Doc \<Rightarrow> ''pdf'' | Unknown \<Rightarrow> ''png''))"
proof -
  from detectConverter_is_decision [OF assms] obtain k t where d: "d = decision k ext t"
    by blast
  have fields: "tool d = t" "defaultOutput d = pickDefaultOutput (category d) (output' t)"
    by (simp_all add: d decision_def)
  have "defaultOutput d \<in> set (output' t)" if "output' t \<noteq> []"
    unfolding fields using that by (rule pickDefaultOutput_in_outputs)
  moreover have "defaultOutput d =
      (case category d of Image \<Rightarrow> ''png'' | Audio \<Rightarrow> ''wav'' | Video \<Rightarrow> ''mp4''
       | Doc \<Rightarrow> ''pdf'' | Unknown \<Rightarrow> ''png'')" if "output' t = []"
    unfolding fields that by (cases "category d") (simp_all add: pickDefaultOutput_def)
  ultimately show ?thesis by (simp add: fields)
qed

lemma bareHost_resolveAll:
  "resolveAll bareHost emptyCache = (None, Some bareFfmpeg, None, None)"
  by code_simp

theorem detectConverter_defaultOutput_witness:
  "fst (detectConverter docsHost emptyCache ''docx'') = Some docxDecision
   \<and> output' (tool docxDecision) \<noteq> []
   \<and> defaultOutput docxDecision \<in> set (output' (tool docxDecision))
   \<and> fst (detectConverter bareHost emptyCache ''mov'') = Some movDecision
   \<and> output' (tool movDecision) = []
   \<and> defaultOutput movDecision = ''mp4''"
proof -
  have docx: "fst (detectConverter docsHost emptyCache ''docx'') = Some docxDecision"
    by (simp add: detectConverter_resolved [OF docsHost_resolveAll] imagePreferredExts_def
        docsPandoc_def docxDecision_def decision_def pickDefaultOutput_def)
  have mov: "fst (detectConverter bareHost emptyCache ''mov'') = Some movDecision"
    by (simp add: detectConverter_resolved [OF bareHost_resolveAll] imagePreferredExts_def
        bareFfmpeg_def movDecision_def decision_def pickDefaultOutput_def audioExts_def
        videoExts_def)
  from detectConverter_defaultOutput [OF docx] detectConverter_defaultOutput [OF mov]
  show ?thesis
    by (simp add: docx mov docxDecision_def movDecision_def docsPandoc_def bareFfmpeg_def)
qed

section \<open>The overwrite guard never fails\<close>

lemma overwriteCheck_swallows: "overwriteCheck e outputPath overwrite = Inr ()"
  by (simp add: overwriteCheck_def tryCatch_def fsAccess_def)

lemma convertWithTool_always_runs:
  "length (snd (convertWithTool e inputPath outputPath outputExt overwrite converter t)) = 1"
  by (simp add: convertWithTool_def overwriteCheck_swallows Let_def)

text \<open>
  C1 asks that a request without \<open>overwrite\<close> whose output path exists fails with the
  destination-exists error before any process is started.  The code at such a request: the
  output \<open>/out/photo.png\<close> exists, \<open>overwrite\<close> is false, and the image tool is started
  on it and the call returns the output path.
\<close>

theorem convertWithTool_existing_destination:
  "access photoHost ''/out/photo.png''
   \<and> convertWithTool photoHost ''/in/photo.heic'' ''/out/photo.png'' ''png'' False Magick photoMagick
       = (Inr ''/out/photo.png'', [(''magick'', [''/in/photo.heic'', ''/out/photo.png''])])"
  by (simp add: convertWithTool_def overwriteCheck_swallows runCommand_def photoHost_def
      posixHost_def photoMagick_def)

section \<open>Clipboard text before clipboard images\<close>

lemma readClipboardFile_text_first:
  assumes "\<not> truthy (file' (clipboardRead e))" and "text' (clipboardRead e) \<noteq> []"
  shows "snd (readClipboardFile e unique) = []"
  using assms by (simp add: readClipboardFile_def Let_def split: sum.splits)

lemma readClipboardImageToTemp_starts_process:
  "snd (readClipboardImageToTemp e unique) \<noteq> []"
  by (simp add: readClipboardImageToTemp_def readClipboardImageWindows_def
      readClipboardImageMac_def Let_def split: option.splits)

lemma readClipboardFile_capture_iff:
  "(snd (readClipboardFile e unique) \<noteq> []) =
     (\<not> truthy (file' (clipboardRead e)) \<and> text' (clipboardRead e) = [])"
  using readClipboardImageToTemp_starts_process [of e unique]
  by (auto simp: readClipboardFile_def Let_def split: sum.splits prod.splits)

lemma readClipboardFile_plain_text:
  assumes "\<not> truthy (file' (clipboardRead e))"
    and "trim (text' (clipboardRead e)) \<noteq> []"
    and "\<not> startsWith (trim (text' (clipboardRead e))) ''file://''"
    and "\<not> access e (trim (text' (clipboardRead e)))"
  shows "readClipboardFile e unique = (Inr None, [])"
proof -
  from assms(2) have "text' (clipboardRead e) \<noteq> []"
    by (auto simp: trim_def trimStart_def trimEnd_def)
  with assms show ?thesis
    by (simp add: readClipboardFile_def Let_def)
qed

text \<open>
  C10 asks that non-empty clipboard text that names no accessible path gives \<open>null\<close>, with
  no image capture.  The code at the text \<open>file:///a%2Fb\<close>: \<open>fileURLToPath\<close> rejects it,
  outside the \<open>try\<close> block, and the call fails with that error; no process was started.
\<close>

theorem readClipboardFile_url_throws:
  "text' (clipboardRead urlHost) = ''file:///a%2Fb''
   \<and> file' (clipboardRead urlHost) = None
   \<and> readClipboardFile urlHost uuidA
       = (Inl (Error ''File URL path must not include encoded / characters''), [])"
  by (simp add: readClipboardFile_def urlHost_def posixHost_def startsWith_def trim_def
      trimStart_def trimEnd_def isSpace_def)

section \<open>Joining a directory and a file name\<close>















lemma lastSegment_no_slash: "CHR ''/'' \<notin> set (lastSegment p)"
  by (auto simp: lastSegment_def dest: set_takeWhileD)


lemma pathBasename_no_slash: "CHR ''/'' \<notin> set (pathBasename p suffix)"
  using lastSegment_no_slash [of p]
  by (auto simp: pathBasename_def Let_def dest: in_set_takeD)


section \<open>Output paths for saving and for the clipboard\<close>






lemma savedName_plain_iff:
  "plainName (savedName inputPath outputExt) =
     (CHR ''/'' \<notin> set (normalizeExt outputExt)
      \<and> savedName inputPath outputExt \<noteq> ''.'' \<and> savedName inputPath outputExt \<noteq> ''..'')"
  using pathBasename_no_slash [of inputPath "pathExtname inputPath"]
  by (auto simp: plainName_def savedName_def)











section \<open>Extension lists of the registry\<close>

lemma uniqueSorted_set: "set (uniqueSorted values) = set values - {[]}"
  by (auto simp: uniqueSorted_def arrayFromSet_def)

lemma uniqueSorted_distinct: "distinct (uniqueSorted values)"
  by (simp add: uniqueSorted_def arrayFromSet_def)

lemma uniqueSorted_sorted: "sorted (uniqueSorted values)"
  by (simp add: uniqueSorted_def)

lemma uniqueSorted_normalizedFrom:
  "set values \<subseteq> normalizeExt ` set names \<Longrightarrow> normalizedFrom names (uniqueSorted values)"
  by (auto simp: normalizedFrom_def uniqueSorted_set uniqueSorted_distinct uniqueSorted_sorted)

lemma normalizedFrom_Nil: "normalizedFrom names []"
  by (simp add: normalizedFrom_def)

lemma toLowerChar_not_upper: "toLowerChar c \<notin> set upperChars"
proof (cases "c \<in> set upperChars")
  case True
  have "length upperChars = length lowerChars"
    by (simp add: upperChars_def lowerChars_def)
  with True obtain d where d: "map_of (zip upperChars lowerChars) c = Some d"
    using map_of_zip_is_Some by fastforce
  then have "d \<in> set lowerChars"
    by (auto dest: map_of_SomeD set_zip_rightD)
  then have "d \<notin> set upperChars"
    by (auto simp: lowerChars_def upperChars_def)
  with d show ?thesis by (simp add: toLowerChar_def)
next
  case False
  with toLowerChar_cases [of c] show ?thesis by auto
qed

lemma lowerCased_normalizeExt: "lowerCased (normalizeExt v)"
  by (simp add: lowerCased_def normalizeExt_def toLowerCase_idem)

lemma noLeadingDot_normalizeExt: "noLeadingDot (normalizeExt n) = (\<not> doubleDotted n)"
proof (cases "trim n")
  case Nil
  then show ?thesis
    by (simp add: noLeadingDot_def doubleDotted_def normalizeExt_def startsWith_def
        toLowerCase_def)
next
  case (Cons c cs)
  show ?thesis
  proof (cases cs)
    case Nil
    with Cons show ?thesis
      by (simp add: noLeadingDot_def doubleDotted_def normalizeExt_def startsWith_def
          toLowerCase_def toLowerChar_dot)
  next
    case (Cons d ds)
    with \<open>trim n = c # cs\<close> show ?thesis
      by (simp add: noLeadingDot_def doubleDotted_def normalizeExt_def startsWith_def
          toLowerCase_def toLowerChar_dot)
  qed
qed

lemma normalizedFrom_entries:
  assumes "normalizedFrom names xs" and "x \<in> set xs"
  shows "lowerCased x" and "x \<noteq> []"
    and "(\<forall>n\<in>set names. \<not> doubleDotted n) \<Longrightarrow> noLeadingDot x"
proof -
  from assms obtain n where n: "n \<in> set names" "x = normalizeExt n"
    by (auto simp: normalizedFrom_def)
  show "lowerCased x" by (simp add: n lowerCased_normalizeExt)
  from assms show "x \<noteq> []" by (auto simp: normalizedFrom_def)
  show "noLeadingDot x" if "\<forall>n\<in>set names. \<not> doubleDotted n"
    using that n by (simp add: noLeadingDot_normalizeExt)
qed

lemma magickNames_Cons:
  "set (magickNames (line # lines)) = set (magickNames [line]) \<union> set (magickNames lines)"
  by (simp add: magickNames_def map_filter_simps split: option.splits)

lemma magickStep_names:
  "set (fst (magickStep acc line)) \<subseteq> set (fst acc) \<union> normalizeExt ` set (magickNames [line])"
  "set (snd (magickStep acc line)) \<subseteq> set (snd acc) \<union> normalizeExt ` set (magickNames [line])"
  by (auto simp: magickStep_def magickNames_def map_filter_simps Let_def
      split: option.splits prod.splits)

lemma magick_fold_names:
  "set (fst (foldl magickStep acc lines)) \<subseteq> set (fst acc) \<union> normalizeExt ` set (magickNames lines)
   \<and> set (snd (foldl magickStep acc lines)) \<subseteq> set (snd acc) \<union> normalizeExt ` set (magickNames lines)"
proof (induction lines arbitrary: acc)
  case Nil
  then show ?case by simp
next
  case (Cons line lines)
  from Cons.IH [of "magickStep acc line"] magickStep_names [of acc line]
  show ?case
    unfolding magickNames_Cons [of line lines] foldl_Cons by blast
qed

lemma ffmpegNames_Cons:
  "set (ffmpegNames (line # lines)) = set (ffmpegNames [line]) \<union> set (ffmpegNames lines)"
  by (simp add: ffmpegNames_def map_filter_simps split: option.splits)

lemma ffmpegStep_names:
  "set (fst (ffmpegStep acc line)) \<subseteq> set (fst acc) \<union> normalizeExt ` set (ffmpegNames [line])"
  "set (snd (ffmpegStep acc line)) \<subseteq> set (snd acc) \<union> normalizeExt ` set (ffmpegNames [line])"
  by (auto simp: ffmpegStep_def ffmpegNames_def map_filter_simps Let_def
      split: option.splits prod.splits)

lemma ffmpeg_fold_names:
  "set (fst (foldl ffmpegStep acc lines)) \<subseteq> set (fst acc) \<union> normalizeExt ` set (ffmpegNames lines)
   \<and> set (snd (foldl ffmpegStep acc lines)) \<subseteq> set (snd acc) \<union> normalizeExt ` set (ffmpegNames lines)"
proof (induction lines arbitrary: acc)
  case Nil
  then show ?case by simp
next
  case (Cons line lines)
  from Cons.IH [of "ffmpegStep acc line"] ffmpegStep_names [of acc line]
  show ?case
    unfolding ffmpegNames_Cons [of line lines] foldl_Cons by blast
qed

lemma formatsOf_probed:
  assumes "k \<noteq> Libreoffice"
  shows "normalizedFrom (listedNames k e b) (fst (formatsOf k e b))
         \<and> normalizedFrom (listedNames k e b) (snd (formatsOf k e b))"
proof (cases k)
  case Magick
  show ?thesis
  proof (cases "execFile e b [''-list'', ''format'']")
    case (Resolved out err)
    from magick_fold_names [of "([], [])" "splitLines out"] show ?thesis
      by (simp add: Magick Resolved loadMagickFormats_def Let_def uniqueSorted_normalizedFrom)
  next
    case (Rejected msg out err)
    then show ?thesis
      by (simp add: Magick loadMagickFormats_def normalizedFrom_Nil)
  qed
next
  case Ffmpeg
  show ?thesis
  proof (cases "execFile e b [''-hide_banner'', ''-formats'']")
    case (Resolved out err)
    from ffmpeg_fold_names [of "([], [])" "splitLines out"] show ?thesis
      by (simp add: Ffmpeg Resolved loadFfmpegFormats_def Let_def uniqueSorted_normalizedFrom)
  next
    case (Rejected msg out err)
    then show ?thesis
      by (simp add: Ffmpeg loadFfmpegFormats_def normalizedFrom_Nil)
  qed
next
  case Pandoc
  show ?thesis
    by (auto simp: Pandoc loadPandocFormats_def normalizedFrom_Nil
        intro!: uniqueSorted_normalizedFrom split: exec_result.splits)
next
  case Libreoffice
  with assms show ?thesis by simp
qed

lemma cacheOk_unfold:
  "cacheOk e c =
     ((\<forall>t. magick c = Some (Some t) \<longrightarrow> (input t, output' t) = loadMagickFormats e (bin t))
      \<and> (\<forall>t. ffmpeg c = Some (Some t) \<longrightarrow> (input t, output' t) = loadFfmpegFormats e (bin t))
      \<and> (\<forall>t. pandoc c = Some (Some t) \<longrightarrow> (input t, output' t) = loadPandocFormats e (bin t))
      \<and> (\<forall>t. libreoffice c = Some (Some t) \<longrightarrow>
             (input t, output' t) = (libreOfficeInput, libreOfficeOutput)))"
  by (auto simp: cacheOk_def split: option.splits)

lemma cacheOk_empty: "cacheOk e emptyCache"
  by (simp add: cacheOk_unfold emptyCache_def)

lemma ensureMagick_shape:
  "(\<exists>cached. magick c = Some cached \<and> ensureMagick e c = (cached, c))
   \<or> (magick c = None
       \<and> (\<exists>r. ensureMagick e c = (r, c\<lparr>magick := Some r\<rparr>)
               \<and> (\<forall>t. r = Some t \<longrightarrow> (input t, output' t) = loadMagickFormats e (bin t))))"
  by (cases "magick c") (simp_all add: ensureMagick_def Let_def)

lemma ensureFfmpeg_shape:
  "(\<exists>cached. ffmpeg c = Some cached \<and> ensureFfmpeg e c = (cached, c))
   \<or> (ffmpeg c = None
       \<and> (\<exists>r. ensureFfmpeg e c = (r, c\<lparr>ffmpeg := Some r\<rparr>)
               \<and> (\<forall>t. r = Some t \<longrightarrow> (input t, output' t) = loadFfmpegFormats e (bin t))))"
  by (cases "ffmpeg c") (simp_all add: ensureFfmpeg_def Let_def)

lemma ensurePandoc_shape:
  "(\<exists>cached. pandoc c = Some cached \<and> ensurePandoc e c = (cached, c))
   \<or> (pandoc c = None
       \<and> (\<exists>r. ensurePandoc e c = (r, c\<lparr>pandoc := Some r\<rparr>)
               \<and> (\<forall>t. r = Some t \<longrightarrow> (input t, output' t) = loadPandocFormats e (bin t))))"
  by (cases "pandoc c") (simp_all add: ensurePandoc_def Let_def)

lemma ensureLibreOffice_shape:
  "(\<exists>cached. libreoffice c = Some cached \<and> ensureLibreOffice e c = (cached, c))
   \<or> (libreoffice c = None
       \<and> (\<exists>r. ensureLibreOffice e c = (r, c\<lparr>libreoffice := Some r\<rparr>)
               \<and> (\<forall>t. r = Some t \<longrightarrow>
                      (input t, output' t) = (libreOfficeInput, libreOfficeOutput))))"
  by (cases "libreoffice c") (simp_all add: ensureLibreOffice_def Let_def)

lemma ensure_shape:
  "(\<exists>cached. cacheEntry k c = Some cached \<and> ensure k e c = (cached, c))
   \<or> (cacheEntry k c = None
       \<and> (\<exists>r c'. ensure k e c = (r, c') \<and> cacheEntry k c' = Some r
               \<and> (\<forall>j. j \<noteq> k \<longrightarrow> cacheEntry j c' = cacheEntry j c)
               \<and> (\<forall>t. r = Some t \<longrightarrow> (input t, output' t) = formatsOf k e (bin t))))"
proof (cases k)
  case Magick
  have "j \<noteq> Magick \<Longrightarrow> cacheEntry j (c\<lparr>magick := x\<rparr>) = cacheEntry j c" for j x
    by (cases j) simp_all
  with ensureMagick_shape [of c e] show ?thesis
    unfolding Magick by (elim disjE exE conjE) simp_all
next
  case Ffmpeg
  have "j \<noteq> Ffmpeg \<Longrightarrow> cacheEntry j (c\<lparr>ffmpeg := x\<rparr>) = cacheEntry j c" for j x
    by (cases j) simp_all
  with ensureFfmpeg_shape [of c e] show ?thesis
    unfolding Ffmpeg by (elim disjE exE conjE) simp_all
next
  case Pandoc
  have "j \<noteq> Pandoc \<Longrightarrow> cacheEntry j (c\<lparr>pandoc := x\<rparr>) = cacheEntry j c" for j x
    by (cases j) simp_all
  with ensurePandoc_shape [of c e] show ?thesis
    unfolding Pandoc by (elim disjE exE conjE) simp_all
next
  case Libreoffice
  have "j \<noteq> Libreoffice \<Longrightarrow> cacheEntry j (c\<lparr>libreoffice := x\<rparr>) = cacheEntry j c" for j x
    by (cases j) simp_all
  with ensureLibreOffice_shape [of c e] show ?thesis
    unfolding Libreoffice by (elim disjE exE conjE) simp_all
qed

lemma cacheOk_iff:
  "cacheOk e c =
     (\<forall>k t. cacheEntry k c = Some (Some t) \<longrightarrow> (input t, output' t) = formatsOf k e (bin t))"
proof
  assume ok: "cacheOk e c"
  show "\<forall>k t. cacheEntry k c = Some (Some t) \<longrightarrow> (input t, output' t) = formatsOf k e (bin t)"
  proof (intro allI impI)
    fix k t
    assume "cacheEntry k c = Some (Some t)"
    with ok show "(input t, output' t) = formatsOf k e (bin t)"
      by (cases k) (simp_all add: cacheOk_unfold)
  qed
next
  assume all: "\<forall>k t. cacheEntry k c = Some (Some t) \<longrightarrow> (input t, output' t) = formatsOf k e (bin t)"
  from all [rule_format, of Magick] all [rule_format, of Ffmpeg] all [rule_format, of Pandoc]
    all [rule_format, of Libreoffice]
  show "cacheOk e c"
    by (simp add: cacheOk_unfold)
qed

lemma ensure_descriptor:
  assumes "cacheOk e c" and "ensure k e c = (r, c')"
  shows "cacheOk e c' \<and> (\<forall>t. r = Some t \<longrightarrow> (input t, output' t) = formatsOf k e (bin t))"
  using ensure_shape [of k c e]
proof (elim disjE exE conjE)
  fix cached
  assume "cacheEntry k c = Some cached" "ensure k e c = (cached, c)"
  with assms show ?thesis
    by (auto simp: cacheOk_iff)
next
  fix r0 c0
  assume a: "ensure k e c = (r0, c0)" "cacheEntry k c0 = Some r0"
    "\<forall>j. j \<noteq> k \<longrightarrow> cacheEntry j c0 = cacheEntry j c"
    "\<forall>t. r0 = Some t \<longrightarrow> (input t, output' t) = formatsOf k e (bin t)"
  with assms(2) have eq: "r0 = r" "c0 = c'" by simp_all
  have "(input t, output' t) = formatsOf j e (bin t)" if "cacheEntry j c' = Some (Some t)" for j t
  proof (cases "j = k")
    case True
    with that a(2,4) eq show ?thesis by simp
  next
    case False
    with a(3) eq that have "cacheEntry j c = Some (Some t)" by simp
    with assms(1) show ?thesis by (simp add: cacheOk_iff)
  qed
  with a(4) eq show ?thesis
    by (simp add: cacheOk_iff)
qed

lemma ensure_keeps_cacheOk: "cacheOk e c \<Longrightarrow> cacheOk e (snd (ensure k e c))"
  using ensure_descriptor [of e c k "fst (ensure k e c)" "snd (ensure k e c)"] by simp

lemma libreOffice_lists:
  "list_all (\<lambda>x. lowerCased x \<and> x \<noteq> [] \<and> noLeadingDot x) (libreOfficeInput @ libreOfficeOutput)
   \<and> distinct libreOfficeInput \<and> distinct libreOfficeOutput
   \<and> \<not> sorted libreOfficeInput \<and> \<not> sorted libreOfficeOutput"
  by code_simp

text \<open>
  C9, the claim as made: the lists of every descriptor are sorted and free of leading dots.
  The office suite's descriptor carries two constants that are not in alphabetical order
  (\<open>xlsx\<close> stands before \<open>ppt\<close>, \<open>pdf\<close> before \<open>docx\<close>); and a listed name with two dots
  in front keeps one of them.
\<close>

theorem registry_lists_unsorted_or_dotted:
  "fst (ensure Libreoffice docsHost emptyCache) = Some docsOffice
   \<and> \<not> sorted (input docsOffice) \<and> \<not> sorted (output' docsOffice)
   \<and> fst (ensure Pandoc dotsHost emptyCache) = Some dotsPandoc
   \<and> input dotsPandoc = [''.md''] \<and> \<not> noLeadingDot ''.md''"
  by code_simp

text \<open>
  C9, as the code has it, for listings over the characters U+0000 to U+00FF.  For a
  descriptor that the registry returns for a tool kind, on a cache of the host (which the
  registry leaves a cache of the host): every entry of the input and output list is
  lower-cased (\<open>toLowerCase\<close> leaves it as it is) and not empty, and the lists contain no
  duplicates; for the image, media and markup tool the lists are sorted by character code,
  and no entry has a leading dot provided no format name that the tool's listing yields
  starts, once trimmed, with two dots; for the office suite the lists are the two constants
  of the source, without a leading dot in any entry, and not sorted.
\<close>

theorem registry_extension_lists:
  assumes "cacheOk e c" and "ensure k e c = (Some t, c')"
  shows "cacheOk e c'
         \<and> (\<forall>x \<in> set (input t) \<union> set (output' t). lowerCased x \<and> x \<noteq> [])
         \<and> distinct (input t) \<and> distinct (output' t)
         \<and> (k \<noteq> Libreoffice \<longrightarrow> sorted (input t) \<and> sorted (output' t))
         \<and> (k \<noteq> Libreoffice \<and> (\<forall>n \<in> set (listedNames k e (bin t)). \<not> doubleDotted n)
              \<longrightarrow> (\<forall>x \<in> set (input t) \<union> set (output' t). noLeadingDot x))
         \<and> (k = Libreoffice \<longrightarrow>
              input t = libreOfficeInput \<and> output' t = libreOfficeOutput
              \<and> (\<forall>x \<in> set (input t) \<union> set (output' t). noLeadingDot x)
              \<and> \<not> sorted (input t) \<and> \<not> sorted (output' t))"
proof -
  from ensure_descriptor [OF assms]
  have lists: "input t = fst (formatsOf k e (bin t))" "output' t = snd (formatsOf k e (bin t))"
    and c': "cacheOk e c'"
    by (simp_all add: prod_eq_iff)
  show ?thesis
  proof (cases "k = Libreoffice")
    case True
    with lists have "input t = libreOfficeInput" "output' t = libreOfficeOutput"
      by simp_all
    with True libreOffice_lists c' show ?thesis
      by (auto simp: list_all_iff)
  next
    case False
    from formatsOf_probed [OF False, of e "bin t"]
    have i: "normalizedFrom (listedNames k e (bin t)) (input t)"
      and o: "normalizedFrom (listedNames k e (bin t)) (output' t)"
      by (simp_all add: lists)
    have entries: "lowerCased x \<and> x \<noteq> []" if "x \<in> set (input t) \<union> set (output' t)" for x
      using that normalizedFrom_entries(1,2) [OF i] normalizedFrom_entries(1,2) [OF o]
      by blast
    have dots: "noLeadingDot x"
      if "\<forall>n \<in> set (listedNames k e (bin t)). \<not> doubleDotted n"
        and "x \<in> set (input t) \<union> set (output' t)" for x
      using that normalizedFrom_entries(3) [OF i] normalizedFrom_entries(3) [OF o]
      by blast
    from i o have "distinct (input t)" "distinct (output' t)" "sorted (input t)"
      "sorted (output' t)"
      by (simp_all add: normalizedFrom_def)
    with False c' entries dots show ?thesis
      by blast
  qed
qed

theorem registry_extension_lists_witness:
  "cacheOk docsHost emptyCache
   \<and> ensure Pandoc docsHost emptyCache
       = (Some docsPandoc, emptyCache\<lparr>pandoc := Some (Some docsPandoc)\<rparr>)
   \<and> list_all (\<lambda>n. \<not> doubleDotted n) (listedNames Pandoc docsHost (bin docsPandoc))
   \<and> cacheOk docsHost (emptyCache\<lparr>pandoc := Some (Some docsPandoc)\<rparr>)
   \<and> list_all (\<lambda>x. lowerCased x \<and> x \<noteq> [] \<and> noLeadingDot x)
        (input docsPandoc @ output' docsPandoc)
   \<and> distinct (input docsPandoc) \<and> distinct (output' docsPandoc)
   \<and> sorted (input docsPandoc) \<and> sorted (output' docsPandoc)
   \<and> ensure Libreoffice docsHost (emptyCache\<lparr>pandoc := Some (Some docsPandoc)\<rparr>)
       = (Some docsOffice,
          emptyCache\<lparr>pandoc := Some (Some docsPandoc), libreoffice := Some (Some docsOffice)\<rparr>)
   \<and> input docsOffice = libreOfficeInput \<and> output' docsOffice = libreOfficeOutput
   \<and> distinct (input docsOffice) \<and> distinct (output' docsOffice)
   \<and> \<not> sorted (input docsOffice) \<and> \<not> sorted (output' docsOffice)"
proof -
  let ?c1 = "emptyCache\<lparr>pandoc := Some (Some docsPandoc)\<rparr>"
  have r: "ensure Pandoc docsHost emptyCache = (Some docsPandoc, ?c1)"
    by code_simp
  have n: "list_all (\<lambda>n. \<not> doubleDotted n) (listedNames Pandoc docsHost (bin docsPandoc))"
    by code_simp
  then have n': "\<forall>n \<in> set (listedNames Pandoc docsHost (bin docsPandoc)). \<not> doubleDotted n"
    by (simp only: list_all_iff)
  from registry_extension_lists [OF cacheOk_empty r] n'
  have c1: "cacheOk docsHost ?c1"
    and p: "\<forall>x \<in> set (input docsPandoc) \<union> set (output' docsPandoc).
           lowerCased x \<and> x \<noteq> [] \<and> noLeadingDot x"
      "distinct (input docsPandoc)" "distinct (output' docsPandoc)"
      "sorted (input docsPandoc)" "sorted (output' docsPandoc)"
    by blast+
  have l: "ensure Libreoffice docsHost ?c1
             = (Some docsOffice, ?c1\<lparr>libreoffice := Some (Some docsOffice)\<rparr>)"
    by code_simp
  from registry_extension_lists [OF c1 l]
  have o: "input docsOffice = libreOfficeInput" "output' docsOffice = libreOfficeOutput"
      "distinct (input docsOffice)" "distinct (output' docsOffice)"
      "\<not> sorted (input docsOffice)" "\<not> sorted (output' docsOffice)"
    by blast+
  from r n cacheOk_empty [of docsHost] c1 p l o show ?thesis
    by (simp only: list_all_iff set_append simp_thms)
qed

end
